theory Spec2Isabelle
  imports Complex_Main "HOL-Library.Sublist"
begin

section \<open>JavaScript values and the object store\<close>

text \<open>
  The generation response is an ordinary JavaScript value: a primitive, or a reference to
  an array or a plain object. Objects are held in a store indexed by address, so that two
  places of a response may hold the same object and an object may (directly or through
  others) contain itself. An object's entries are listed in the order in which
  \<^verbatim>\<open>Object.keys\<close> enumerates them; \<open>map_of\<close> reads a property. A number
  stands for its value: the program only ever looks at whether it is zero.
\<close>

type_synonym addr = nat

datatype jsval =
    Undefined
  | Null
  | Bool bool
  | Num real
  | Str string
  | Ref addr

datatype jsobj =
    Array "jsval list"
  | Object "(string \<times> jsval) list"

type_synonym store = "addr \<Rightarrow> jsobj"

text \<open>JavaScript truthiness (\<^verbatim>\<open>!node\<close> is its negation).\<close>

fun truthy :: "jsval \<Rightarrow> bool" where
  "truthy Undefined = False"
| "truthy Null = False"
| "truthy (Bool b) = b"
| "truthy (Num x) = (x \<noteq> 0)"
| "truthy (Str s) = (s \<noteq> [])"
| "truthy (Ref a) = True"

text \<open>
  Reading a named property \<^verbatim>\<open>v.key\<close> of a value that is neither
  \<^verbatim>\<open>null\<close> nor \<^verbatim>\<open>undefined\<close>. None of the names read by the program
  (candidates, content, parts, inlineData, mimeType, data) is a property of a primitive's or
  an array's prototype, so only plain objects can answer with something else than
  \<^verbatim>\<open>undefined\<close>.
\<close>

fun getProp :: "store \<Rightarrow> jsval \<Rightarrow> string \<Rightarrow> jsval" where
  "getProp h (Ref a) key =
     (case h a of
        Object kvs \<Rightarrow> (case map_of kvs key of Some v \<Rightarrow> v | None \<Rightarrow> Undefined)
      | Array items \<Rightarrow> Undefined)"
| "getProp h v key = Undefined"

definition startsWith :: "string \<Rightarrow> string \<Rightarrow> bool" where
  "startsWith s p = prefix p s"

definition endsWith :: "string \<Rightarrow> string \<Rightarrow> bool" where
  "endsWith s p = suffix p s"

subsection \<open>The structural search \<^verbatim>\<open>findImagePart\<close> (generate.js, lines 82 to 103)\<close>

text \<open>
  The test of line 90:
  \<^verbatim>\<open>node.inlineData && typeof node.inlineData.mimeType === 'string'
      && node.inlineData.mimeType.startsWith('image/')\<close>.
\<close>

definition hasImageData :: "store \<Rightarrow> jsval \<Rightarrow> bool" where
  "hasImageData h node =
     (let inlineData = getProp h node ''inlineData'' in
      truthy inlineData \<and>
      (case getProp h inlineData ''mimeType'' of
         Str m \<Rightarrow> startsWith m ''image/''
       | _ \<Rightarrow> False))"

text \<open>
  A \<^verbatim>\<open>for\<close> loop that returns the first non-null result of its body and
  \<^verbatim>\<open>null\<close> when the list is exhausted (lines 85 to 88 and 93 to 100).
\<close>

fun firstResult :: "('a \<Rightarrow> 'b option) \<Rightarrow> 'a list \<Rightarrow> 'b option" where
  "firstResult f [] = None"
| "firstResult f (x # xs) = (case f x of Some r \<Rightarrow> Some r | None \<Rightarrow> firstResult f xs)"

lemma firstResult_cong [fundef_cong]:
  "xs = ys \<Longrightarrow> (\<And>x. x \<in> set ys \<Longrightarrow> f x = g x) \<Longrightarrow> firstResult f xs = firstResult g ys"
  by (induction ys arbitrary: xs) (auto split: option.splits)

text \<open>
  The search returns the object found (its address) or \<^verbatim>\<open>null\<close> (\<open>None\<close>).
  The depth counter is an explicit argument, as in the source.
\<close>

function findImagePart :: "store \<Rightarrow> jsval \<Rightarrow> nat \<Rightarrow> addr option" where
  "findImagePart h node depth =
     (if \<not> truthy node \<or> depth > 8 then None
      else case node of
        Ref a \<Rightarrow>
          (case h a of
             Array items \<Rightarrow>
               firstResult (\<lambda>item. findImagePart h item (depth + 1)) items
           | Object kvs \<Rightarrow>
               if hasImageData h node then Some a
               else firstResult (\<lambda>key. findImagePart h (getProp h node key) (depth + 1)) (map fst kvs))
      | _ \<Rightarrow> None)"
  by pat_completeness auto
termination
  by (relation "measure (\<lambda>(h, node, depth). 9 - depth)") auto

declare findImagePart.simps [simp del]

subsection \<open>The direct path (generate.js, lines 75 to 77)\<close>

text \<open>
  Errors are values. Every error the program itself raises while reading a response is a
  \<^verbatim>\<open>TypeError\<close>; a collaborator (the generation call, the image library, the file
  system) fails with an error carrying its message.
\<close>

datatype error = TypeError | Failure string

definition nullish :: "jsval \<Rightarrow> bool" where
  "nullish v = (v = Undefined \<or> v = Null)"

text \<open>\<^verbatim>\<open>v[0]\<close> on a value that is neither null nor undefined.\<close>

fun index0 :: "store \<Rightarrow> jsval \<Rightarrow> jsval" where
  "index0 h (Ref a) =
     (case h a of
        Array items \<Rightarrow> (case items of [] \<Rightarrow> Undefined | x # rest \<Rightarrow> x)
      | Object kvs \<Rightarrow> (case map_of kvs ''0'' of Some v \<Rightarrow> v | None \<Rightarrow> Undefined))"
| "index0 h (Str s) = (case s of [] \<Rightarrow> Undefined | c # rest \<Rightarrow> Str [c])"
| "index0 h v = Undefined"

text \<open>
  The callback of line 76, \<^verbatim>\<open>part.inlineData?.mimeType?.startsWith('image/')\<close>:
  reading a property of a null part raises, and so does calling
  \<^verbatim>\<open>startsWith\<close> on a media type that is not a string.
\<close>

definition partIsImage :: "store \<Rightarrow> jsval \<Rightarrow> error + bool" where
  "partIsImage h part =
     (if nullish part then Inl TypeError
      else let inlineData = getProp h part ''inlineData'' in
        if nullish inlineData then Inr False
        else let mimeType = getProp h inlineData ''mimeType'' in
          if nullish mimeType then Inr False
          else case mimeType of
                 Str m \<Rightarrow> Inr (startsWith m ''image/'')
               | _ \<Rightarrow> Inl TypeError)"

text \<open>\<^verbatim>\<open>Array.prototype.find\<close> with that callback.\<close>

fun findPart :: "store \<Rightarrow> jsval list \<Rightarrow> error + jsval" where
  "findPart h [] = Inr Undefined"
| "findPart h (part # rest) =
     (case partIsImage h part of
        Inl e \<Rightarrow> Inl e
      | Inr b \<Rightarrow> if b then Inr part else findPart h rest)"

text \<open>
  \<^verbatim>\<open>response.candidates?.[0]?.content?.parts?.find(...)\<close>. Each \<^verbatim>\<open>?.\<close>
  ends the whole chain with \<^verbatim>\<open>undefined\<close> when the value to its left is null or
  undefined; \<^verbatim>\<open>response\<close> itself is read unguarded, and only an array has a
  \<^verbatim>\<open>find\<close> method.
\<close>

definition directPath :: "store \<Rightarrow> jsval \<Rightarrow> error + jsval" where
  "directPath h response =
     (if nullish response then Inl TypeError
      else let candidates = getProp h response ''candidates'' in
        if nullish candidates then Inr Undefined
        else let first = index0 h candidates in
          if nullish first then Inr Undefined
          else let content = getProp h first ''content'' in
            if nullish content then Inr Undefined
            else let parts = getProp h content ''parts'' in
              if nullish parts then Inr Undefined
              else case parts of
                     Ref a \<Rightarrow> (case h a of
                                Array items \<Rightarrow> findPart h items
                              | Object kvs \<Rightarrow> Inl TypeError)
                   | _ \<Rightarrow> Inl TypeError)"

text \<open>
  Lines 75 to 106 together: the direct path, and the structural search from depth 0 when
  the direct path gave no part.
\<close>

definition extractImagePart :: "store \<Rightarrow> jsval \<Rightarrow> error + jsval" where
  "extractImagePart h response =
     (case directPath h response of
        Inl e \<Rightarrow> Inl e
      | Inr imagePart \<Rightarrow>
          if \<not> truthy imagePart then
            Inr (case findImagePart h response 0 of Some a \<Rightarrow> Ref a | None \<Rightarrow> Null)
          else Inr imagePart)"

subsection \<open>The traversal as the specification words it\<close>

text \<open>
  The values below a node, in order: the elements of an array by index, the property values
  of an object by key in enumeration order.
\<close>

definition children :: "store \<Rightarrow> jsval \<Rightarrow> jsval list" where
  "children h node =
     (case node of
        Ref a \<Rightarrow> (case h a of
                   Array items \<Rightarrow> items
                 | Object kvs \<Rightarrow> map (getProp h node) (map fst kvs))
      | _ \<Rightarrow> [])"

text \<open>
  The depth-first pre-order listing of the values at depth at most 8, the root counted at
  the depth given: a node comes before the values below it, and these in order.
\<close>

function traversal :: "store \<Rightarrow> jsval \<Rightarrow> nat \<Rightarrow> jsval list" where
  "traversal h node depth =
     (if depth > 8 then []
      else node # concat (map (\<lambda>c. traversal h c (depth + 1)) (children h node)))"
  by pat_completeness auto
termination
  by (relation "measure (\<lambda>(h, node, depth). 9 - depth)") auto

declare traversal.simps [simp del]

text \<open>The values nested at exactly depth \<open>n\<close> below a root, the root being at depth 0.\<close>

fun nodesAt :: "store \<Rightarrow> jsval \<Rightarrow> nat \<Rightarrow> jsval list" where
  "nodesAt h v 0 = [v]"
| "nodesAt h v (Suc n) = concat (map (\<lambda>c. nodesAt h c n) (children h v))"

section \<open>File names (generate.js, lines 130 to 144; the variant with a serial, lines 93 to 112)\<close>

text \<open>
  Strings are lists of bytes. The characters the file-name rules look at (the dot, the
  letters of the extension, the braces of the placeholder) are ASCII, and no byte of a
  longer UTF-8 sequence is an ASCII character, so the rules act on bytes as they act on
  JavaScript's code units. \<^verbatim>\<open>toLowerCase\<close> is modelled on the ASCII letters, the only
  ones that can yield the letters of the extension.
\<close>

definition toLowerChar :: "char \<Rightarrow> char" where
  "toLowerChar c =
     (case map_of (zip ''ABCDEFGHIJKLMNOPQRSTUVWXYZ'' ''abcdefghijklmnopqrstuvwxyz'') c of
        Some l \<Rightarrow> l
      | None \<Rightarrow> c)"

definition toLowerCase :: "string \<Rightarrow> string" where
  "toLowerCase s = map toLowerChar s"

text \<open>\<^verbatim>\<open>s.includes(t)\<close>: \<open>t\<close> occurs in \<open>s\<close>.\<close>

fun includes_str :: "string \<Rightarrow> string \<Rightarrow> bool" where
  "includes_str [] t = (t = [])"
| "includes_str (c # cs) t = (prefix t (c # cs) \<or> includes_str cs t)"

text \<open>
  \<^verbatim>\<open>s.replace(/\{timestamp\}/g, ts)\<close>: every occurrence of the placeholder, found
  from left to right, is replaced.
\<close>

fun replaceTimestamp :: "string \<Rightarrow> string \<Rightarrow> string" where
  "replaceTimestamp [] ts = []"
| "replaceTimestamp (c # cs) ts =
     (if prefix ''{timestamp}'' (c # cs) then ts @ replaceTimestamp (drop 10 cs) ts
      else c # replaceTimestamp cs ts)"

text \<open>
  \<^verbatim>\<open>s.replace(/\.[^.]+$/, '')\<close>: the leftmost dot that is followed, up to the end of
  the string, by one or more characters none of which is a dot; the match is removed.
\<close>

fun stripExtension :: "string \<Rightarrow> string" where
  "stripExtension [] = []"
| "stripExtension (c # cs) =
     (if c = CHR ''.'' \<and> cs \<noteq> [] \<and> CHR ''.'' \<notin> set cs then []
      else c # stripExtension cs)"

text \<open>The extension rule of lines 137 to 140.\<close>

definition ensureJpg :: "string \<Rightarrow> string" where
  "ensureJpg fileName =
     (if \<not> endsWith (toLowerCase fileName) ''.jpg'' then stripExtension fileName @ ''.jpg''
      else fileName)"

text \<open>
  The decimal digits of a natural number, as a template literal renders the loop index
  and the value of \<^verbatim>\<open>Date.now()\<close>.
\<close>

fun showNat :: "nat \<Rightarrow> string" where
  "showNat n =
     (if n < 10 then [''0123456789'' ! n]
      else showNat (n div 10) @ [''0123456789'' ! (n mod 10)])"

declare showNat.simps [simp del]

text \<open>
  The name of the file of entry \<open>i\<close> (counted from 0) in generate.js. A requested name that
  is \<^verbatim>\<open>null\<close> (\<open>None\<close>) or empty is falsy.
\<close>

definition resolveFileName :: "string option \<Rightarrow> nat \<Rightarrow> nat \<Rightarrow> string" where
  "resolveFileName requestedFilename i now =
     (case requestedFilename of
        Some (c # cs) \<Rightarrow>
          ensureJpg (if includes_str (c # cs) ''{timestamp}''
                     then replaceTimestamp (c # cs) (showNat now) else c # cs)
      | _ \<Rightarrow> ''image_'' @ showNat (i + 1) @ ''_'' @ showNat now @ ''.jpg'')"

text \<open>
  The same in the variant that reads the run identifier \<^verbatim>\<open>SERIAL\<close> from the
  environment (the empty string when it is not set).
\<close>

definition resolveFileNameSerial :: "string \<Rightarrow> string option \<Rightarrow> nat \<Rightarrow> nat \<Rightarrow> string" where
  "resolveFileNameSerial SERIAL requestedFilename i now =
     (let serialSegment = (if SERIAL \<noteq> [] then SERIAL @ ''_'' else [])
      in case requestedFilename of
        Some (c # cs) \<Rightarrow>
          (let fileName = ensureJpg (if includes_str (c # cs) ''{timestamp}''
                                     then replaceTimestamp (c # cs) (showNat now) else c # cs)
           in if SERIAL \<noteq> [] \<and> \<not> startsWith fileName (SERIAL @ ''_'')
              then SERIAL @ ''_'' @ fileName else fileName)
      | _ \<Rightarrow> ''image_'' @ showNat (i + 1) @ ''_'' @ serialSegment @ showNat now @ ''.jpg'')"

section \<open>The batch (generate.js, lines 36 to 186)\<close>

text \<open>
  An entry of \<^verbatim>\<open>IMAGE_PROMPTS\<close> is a string, or an object with a prompt and a file
  name (a string or \<^verbatim>\<open>null\<close>).
\<close>

datatype entry = PromptString string | PromptObject string "string option"

fun basePrompt :: "entry \<Rightarrow> string" where
  "basePrompt (PromptString s) = s"
| "basePrompt (PromptObject p f) = p"

fun requestedFilename :: "entry \<Rightarrow> string option" where
  "requestedFilename (PromptString s) = None"
| "requestedFilename (PromptObject p f) = f"

text \<open>\<^verbatim>\<open>entry.prompt\<close>, which line 57 prints: undefined for a string.\<close>

fun promptField :: "entry \<Rightarrow> string option" where
  "promptField (PromptString s) = None"
| "promptField (PromptObject p f) = Some p"

text \<open>
  What the program does to the outside, one constructor for each place of the source that
  does it: the line is given, with the values that place passes on.
\<close>

datatype event =
    LogStart nat \<comment> \<open>line 45: the number of entries\<close>
  | LogProcessing nat nat "string option" \<comment> \<open>line 57: \<open>i + 1\<close>, the number of entries, \<^verbatim>\<open>entry.prompt\<close>\<close>
  | GenerateContent string \<comment> \<open>line 64: the generation call, with the full prompt\<close>
  | WriteFile string string \<comment> \<open>line 148: the file name under the output directory, the bytes\<close>
  | LogSaved string \<comment> \<open>line 150\<close>
  | ErrorConvert error \<comment> \<open>line 153\<close>
  | ErrorSharp error \<comment> \<open>line 156\<close>
  | WarnNoImage string \<comment> \<open>line 174\<close>
  | DebugSummary \<comment> \<open>line 175\<close>
  | InfoHint \<comment> \<open>line 178\<close>
  | ErrorGenerate string error \<comment> \<open>line 182\<close>
  | LogFinished \<comment> \<open>line 185\<close>

text \<open>
  What a promise is rejected with, or a callback raises: an error object, or
  \<^verbatim>\<open>null\<close> or \<^verbatim>\<open>undefined\<close>, of which no property can be read. The
  functions of the platform that the program calls directly (\<^verbatim>\<open>Buffer.from\<close>,
  \<^verbatim>\<open>JSON.stringify\<close>, \<^verbatim>\<open>fs.writeFileSync\<close>) raise error objects only.
\<close>

datatype thrown = Thrown error | ThrownNull

text \<open>A promise is rejected, is resolved, or never settles.\<close>

datatype 'a promise = Rejected thrown | Resolved 'a | Pending

text \<open>
  The conversion chain of lines 119 to 127 raises at once, or returns a promise of the
  encoded bytes.
\<close>

datatype conversion = Raises thrown | Converts "string promise"

text \<open>
  The collaborators, which the program only calls: the generation call of entry \<open>i\<close>
  (a promise of a response in its store), \<^verbatim>\<open>Buffer.from(data, 'base64')\<close>,
  \<^verbatim>\<open>JSON.stringify\<close> of the response summary (it raises on a cyclic value), the
  import of the image library, its conversion chain, \<^verbatim>\<open>fs.writeFileSync\<close> and
  \<^verbatim>\<open>Date.now()\<close> as read for entry \<open>i\<close>. The text of
  \<^verbatim>\<open>ENFORCED_CONSTRAINTS\<close> is a parameter too.
\<close>

record world =
  generateContent :: "nat \<Rightarrow> string \<Rightarrow> (store \<times> jsval) promise"
  bufferFrom :: "store \<Rightarrow> jsval \<Rightarrow> error + string"
  stringify :: "store \<Rightarrow> jsval \<Rightarrow> error option"
  importSharp :: "unit promise"
  toJpeg :: "string \<Rightarrow> conversion"
  writeFileSync :: "string \<Rightarrow> string \<Rightarrow> error option"
  dateNow :: "nat \<Rightarrow> nat"
  ENFORCED_CONSTRAINTS :: string

text \<open>
  How a piece of code ends. It goes on; or it raises an error that nothing catches, which
  ends the process (the loop is left at once; a callback's rejection ends the process when
  it is reported, at a moment that the loop does not fix); or it waits on a promise that
  never settles. Of a run in which a callback ends the process, the lists below give what
  the loop and the other callbacks do for as long as the process lives.
\<close>

datatype flow = Continue | Uncaught error | NeverResumes

definition ENFORCED_STYLE :: string where
  "ENFORCED_STYLE = ''Retro Comic Book Illustration''"

text \<open>Line 56; \<open>CHR 0x22\<close> is the double quote.\<close>

definition styledPrompt :: "entry \<Rightarrow> string" where
  "styledPrompt e = basePrompt e @ '' -- Estilo: '' @ [CHR 0x22] @ ENFORCED_STYLE @ [CHR 0x22]"

text \<open>Line 62.\<close>

definition fullPrompt :: "world \<Rightarrow> entry \<Rightarrow> string" where
  "fullPrompt w e = styledPrompt e @ ''. '' @ ENFORCED_CONSTRAINTS w"

subsection \<open>The summary of a response without an image (lines 160 to 172)\<close>

text \<open>
  Only the number of parts of each candidate is kept of the summary, and where building it
  raises: \<^verbatim>\<open>p.text\<close> of a part that is null, and \<^verbatim>\<open>map\<close> called on a value
  that is not an array.
\<close>

fun partSummaries :: "jsval list \<Rightarrow> error + unit" where
  "partSummaries [] = Inr ()"
| "partSummaries (p # ps) = (if nullish p then Inl TypeError else partSummaries ps)"

definition candidateSummary :: "store \<Rightarrow> jsval \<Rightarrow> error + nat" where
  "candidateSummary h c =
     (let parts =
        (if nullish c then Undefined
         else let content = getProp h c ''content'' in
           if nullish content then Undefined else getProp h content ''parts'')
      in if nullish parts then Inr 0
         else case parts of
                Ref a \<Rightarrow> (case h a of
                           Array items \<Rightarrow> (case partSummaries items of
                                              Inl e \<Rightarrow> Inl e
                                            | Inr u \<Rightarrow> Inr (length items))
                         | Object kvs \<Rightarrow> Inl TypeError)
              | _ \<Rightarrow> Inl TypeError)"

fun candidateSummaryList :: "store \<Rightarrow> jsval list \<Rightarrow> error + nat list" where
  "candidateSummaryList h [] = Inr []"
| "candidateSummaryList h (c # cs) =
     (case candidateSummary h c of
        Inl e \<Rightarrow> Inl e
      | Inr n \<Rightarrow> (case candidateSummaryList h cs of
                    Inl e \<Rightarrow> Inl e
                  | Inr ns \<Rightarrow> Inr (n # ns)))"

definition candidateSummaries :: "store \<Rightarrow> jsval \<Rightarrow> error + nat list" where
  "candidateSummaries h response =
     (let candidates = getProp h response ''candidates'' in
      if nullish candidates then Inr []
      else case candidates of
             Ref a \<Rightarrow> (case h a of
                        Array cs \<Rightarrow> candidateSummaryList h cs
                      | Object kvs \<Rightarrow> Inl TypeError)
           | _ \<Rightarrow> Inl TypeError)"

subsection \<open>One entry\<close>

text \<open>
  The events of a piece of code are those it got to. The events of a promise's callbacks
  are kept apart, with how the callbacks end: they happen later, at a moment the loop does
  not wait for.
\<close>

text \<open>
  The three handlers. Each reads \<^verbatim>\<open>message\<close> of what it caught (line 182:
  \<^verbatim>\<open>error.message\<close>; lines 153 and 156: \<^verbatim>\<open>err.message || err\<close>) before it
  logs: on \<^verbatim>\<open>null\<close> or \<^verbatim>\<open>undefined\<close> the handler itself raises a
  \<^verbatim>\<open>TypeError\<close>, nothing is logged, and nothing catches that error.
\<close>

definition catchGenerate :: "string \<Rightarrow> thrown \<Rightarrow> event list \<times> flow" where
  "catchGenerate prompt t =
     (case t of
        Thrown err \<Rightarrow> ([ErrorGenerate prompt err], Continue)
      | ThrownNull \<Rightarrow> ([], Uncaught TypeError))"

definition catchConvert :: "thrown \<Rightarrow> event list \<times> flow" where
  "catchConvert t =
     (case t of
        Thrown err \<Rightarrow> ([ErrorConvert err], Continue)
      | ThrownNull \<Rightarrow> ([], Uncaught TypeError))"

definition catchSharp :: "thrown \<Rightarrow> event list \<times> flow" where
  "catchSharp t =
     (case t of
        Thrown err \<Rightarrow> ([ErrorSharp err], Continue)
      | ThrownNull \<Rightarrow> ([], Uncaught TypeError))"

text \<open>
  Lines 160 to 178, the branch taken when no image part was found: the events it got to,
  and the error if it raised.
\<close>

definition reportNoImage :: "world \<Rightarrow> store \<Rightarrow> jsval \<Rightarrow> string \<Rightarrow> event list \<times> error option" where
  "reportNoImage w h response prompt =
     (case candidateSummaries h response of
        Inl e \<Rightarrow> ([], Some e)
      | Inr summaries \<Rightarrow>
          (case stringify w h response of
             Some e \<Rightarrow> ([WarnNoImage prompt], Some e)
           | None \<Rightarrow> ([WarnNoImage prompt, DebugSummary, InfoHint], None)))"

text \<open>
  Lines 116 to 157, the callbacks on the import of the image library. A rejected import,
  or an error raised at once by the conversion chain, reaches the outer
  \<^verbatim>\<open>catch\<close> (line 155); a rejected conversion, or an error raised while the file is
  named and written, reaches the inner one (line 152). While the import or the conversion
  does not settle, nothing happens.
\<close>

definition postProcess :: "world \<Rightarrow> nat \<Rightarrow> string option \<Rightarrow> string \<Rightarrow> event list \<times> flow" where
  "postProcess w i requested imgBuffer =
     (case importSharp w of
        Rejected t \<Rightarrow> catchSharp t
      | Pending \<Rightarrow> ([], NeverResumes)
      | Resolved sharpModule \<Rightarrow>
          (case toJpeg w imgBuffer of
             Raises t \<Rightarrow> catchSharp t
           | Converts (Rejected t) \<Rightarrow> catchConvert t
           | Converts Pending \<Rightarrow> ([], NeverResumes)
           | Converts (Resolved jpegBuffer) \<Rightarrow>
               (let fileName = resolveFileName requested i (dateNow w i)
                in case writeFileSync w fileName jpegBuffer of
                     Some e \<Rightarrow> catchConvert (Thrown e)
                   | None \<Rightarrow> ([WriteFile fileName jpegBuffer, LogSaved fileName], Continue))))"

text \<open>
  How the body of the \<^verbatim>\<open>try\<close> ends: it runs to its end, it raises, or it stays
  at the \<^verbatim>\<open>await\<close> of line 64.
\<close>

datatype outcome = Completed | Threw thrown | Awaiting

text \<open>
  Lines 62 to 179, the body of the \<^verbatim>\<open>try\<close>: the events before the loop goes on, the
  callbacks it has set up, and how it ends.
\<close>

definition tryBody :: "world \<Rightarrow> nat \<Rightarrow> entry \<Rightarrow> event list \<times> (event list \<times> flow) \<times> outcome" where
  "tryBody w i e =
     (case generateContent w i (fullPrompt w e) of
        Pending \<Rightarrow> ([GenerateContent (fullPrompt w e)], ([], Continue), Awaiting)
      | Rejected t \<Rightarrow> ([GenerateContent (fullPrompt w e)], ([], Continue), Threw t)
      | Resolved (h, response) \<Rightarrow>
          (case extractImagePart h response of
             Inl err \<Rightarrow> ([GenerateContent (fullPrompt w e)], ([], Continue), Threw (Thrown err))
           | Inr imagePart \<Rightarrow>
               if truthy imagePart \<and> truthy (getProp h imagePart ''inlineData'') then
                 (case bufferFrom w h (getProp h (getProp h imagePart ''inlineData'') ''data'') of
                    Inl err \<Rightarrow>
                      ([GenerateContent (fullPrompt w e)], ([], Continue), Threw (Thrown err))
                  | Inr imgBuffer \<Rightarrow>
                      ([GenerateContent (fullPrompt w e)],
                       postProcess w i (requestedFilename e) imgBuffer, Completed))
               else
                 (case reportNoImage w h response (styledPrompt e) of
                    (evs, None) \<Rightarrow>
                      (GenerateContent (fullPrompt w e) # evs, ([], Continue), Completed)
                  | (evs, Some err) \<Rightarrow>
                      (GenerateContent (fullPrompt w e) # evs, ([], Continue), Threw (Thrown err)))))"

text \<open>
  Lines 51 to 183, one turn of the loop for entry \<open>i\<close> of \<open>n\<close>: the events of the turn,
  its callbacks, and how the turn ends. What the body raised goes to the handler of line
  182.
\<close>

definition processEntry :: "world \<Rightarrow> nat \<Rightarrow> nat \<Rightarrow> entry \<Rightarrow> event list \<times> (event list \<times> flow) \<times> flow" where
  "processEntry w n i e =
     (case tryBody w i e of
        (evs, later, Completed) \<Rightarrow> (LogProcessing (i + 1) n (promptField e) # evs, later, Continue)
      | (evs, later, Threw t) \<Rightarrow>
          (case catchGenerate (styledPrompt e) t of
             (logged, f) \<Rightarrow> (LogProcessing (i + 1) n (promptField e) # evs @ logged, later, f))
      | (evs, later, Awaiting) \<Rightarrow>
          (LogProcessing (i + 1) n (promptField e) # evs, later, NeverResumes))"

text \<open>The callbacks of an entry: their events and how they end.\<close>

definition callbacksOf :: "world \<Rightarrow> nat \<Rightarrow> nat \<Rightarrow> entry \<Rightarrow> event list \<times> flow" where
  "callbacksOf w n i e = fst (snd (processEntry w n i e))"

subsection \<open>The loop\<close>

text \<open>
  Lines 50 to 184, from index \<open>i\<close> on: the events of the turns in order, the callbacks of
  each entry the loop got to, and how the loop ends. A turn that does not go on is the last.
\<close>

fun loop :: "world \<Rightarrow> nat \<Rightarrow> nat \<Rightarrow> entry list \<Rightarrow> event list \<times> (event list \<times> flow) list \<times> flow" where
  "loop w n i [] = ([], [], Continue)"
| "loop w n i (e # es) =
     (case processEntry w n i e of
        (evs, later, Continue) \<Rightarrow>
          (case loop w n (i + 1) es of
             (rest, laters, f) \<Rightarrow> (evs @ rest, later # laters, f))
      | (evs, later, f) \<Rightarrow> (evs, [later], f))"

text \<open>
  Lines 45 to 185: the start message, the loop, and the completion message when the loop
  went through; beside them the callbacks of each entry. (Before line 45 the client is
  built and the output directory made; that is outside the loop and not modelled.)
\<close>

definition generateAndSaveImages :: "world \<Rightarrow> entry list \<Rightarrow> event list \<times> (event list \<times> flow) list \<times> flow" where
  "generateAndSaveImages w IMAGE_PROMPTS =
     (case loop w (length IMAGE_PROMPTS) 0 IMAGE_PROMPTS of
        (evs, laters, Continue) \<Rightarrow>
          (LogStart (length IMAGE_PROMPTS) # evs @ [LogFinished], laters, Continue)
      | (evs, laters, f) \<Rightarrow> (LogStart (length IMAGE_PROMPTS) # evs, laters, f))"

text \<open>
  The errors of a run that nothing catches: the one that made the loop stop, and those of
  the callbacks. Each of them ends the process.
\<close>

fun uncaught :: "flow \<Rightarrow> error list" where
  "uncaught (Uncaught err) = [err]"
| "uncaught f = []"

definition uncaughtErrors :: "event list \<times> (event list \<times> flow) list \<times> flow \<Rightarrow> error list" where
  "uncaughtErrors run =
     (case run of (evs, laters, f) \<Rightarrow> uncaught f @ concat (map (\<lambda>(later, g). uncaught g) laters))"

text \<open>What is counted of the events.\<close>

fun isWrite :: "event \<Rightarrow> bool" where
  "isWrite (WriteFile f b) = True"
| "isWrite ev = False"

fun isDiagnostic :: "event \<Rightarrow> bool" where
  "isDiagnostic (ErrorConvert e) = True"
| "isDiagnostic (ErrorSharp e) = True"
| "isDiagnostic (WarnNoImage p) = True"
| "isDiagnostic (ErrorGenerate p e) = True"
| "isDiagnostic ev = False"

fun isProcessing :: "event \<Rightarrow> bool" where
  "isProcessing (LogProcessing k n p) = True"
| "isProcessing ev = False"

fun isCall :: "event \<Rightarrow> bool" where
  "isCall (GenerateContent p) = True"
| "isCall ev = False"

definition filesWritten :: "event list \<Rightarrow> nat" where
  "filesWritten evs = length (filter isWrite evs)"

definition diagnostics :: "event list \<Rightarrow> nat" where
  "diagnostics evs = length (filter isDiagnostic evs)"


text \<open>
  The test of line 108 on the response of entry \<open>i\<close>: an image part was extracted.
\<close>

definition extracted :: "world \<Rightarrow> nat \<Rightarrow> entry \<Rightarrow> bool" where
  "extracted w i e =
     (case generateContent w i (fullPrompt w e) of
        Resolved (h, response) \<Rightarrow>
          (case extractImagePart h response of
             Inl err \<Rightarrow> False
           | Inr imagePart \<Rightarrow> truthy imagePart \<and> truthy (getProp h imagePart ''inlineData''))
      | _ \<Rightarrow> False)"

text \<open>
  What is asked of the collaborators in the claims below: that every generation call
  settles; that the import of the image library and every conversion settle; that what a
  promise is rejected with, or the conversion chain raises, is never \<^verbatim>\<open>null\<close> or
  \<^verbatim>\<open>undefined\<close>.
\<close>

definition generationSettles :: "world \<Rightarrow> bool" where
  "generationSettles w = (\<forall>i p. generateContent w i p \<noteq> Pending)"


definition errorsAreObjects :: "world \<Rightarrow> bool" where
  "errorsAreObjects w =
     ((\<forall>i p. generateContent w i p \<noteq> Rejected ThrownNull) \<and>
      importSharp w \<noteq> Rejected ThrownNull \<and>
      (\<forall>b. toJpeg w b \<noteq> Raises ThrownNull \<and> toJpeg w b \<noteq> Converts (Rejected ThrownNull)))"

section \<open>The credential inspector (check-creds.js)\<close>

text \<open>
  The lines the script prints, one constructor for each call of the console, with the
  values that the call prints after its fixed text. A variable of the environment is a
  string or is not set; the line for the API key carries only whether \<^verbatim>\<open>YES\<close> or
  \<^verbatim>\<open>NO\<close> is printed.
\<close>

datatype line =
    EnvHeader \<comment> \<open>line 3\<close>
  | CredentialsPath string \<comment> \<open>line 4\<close>
  | ApiKeyPresent bool \<comment> \<open>line 5: \<^verbatim>\<open>YES\<close> or \<^verbatim>\<open>NO\<close>\<close>
  | SerialValue string \<comment> \<open>line 6\<close>
  | Blank \<comment> \<open>lines 7 and 25\<close>
  | SummaryHeader \<comment> \<open>line 14\<close>
  | ProjectId jsval \<comment> \<open>line 15\<close>
  | ClientEmail jsval \<comment> \<open>line 16\<close>
  | AccountType jsval \<comment> \<open>line 17\<close>
  | CouldNotReadParse error \<comment> \<open>line 19, on the error stream\<close>
  | NoCredentialsFile \<comment> \<open>line 22\<close>
  | Help nat \<comment> \<open>lines 26 to 29, numbered 1 to 4\<close>

record environment =
  GOOGLE_APPLICATION_CREDENTIALS :: "string option"
  GEMINI_API_KEY :: "string option"
  SERIAL :: "string option"

text \<open>The file system and the JSON parser, which the script only calls.\<close>

record files =
  readFileSync :: "string \<Rightarrow> error + string"
  jsonParse :: "string \<Rightarrow> error + (store \<times> jsval)"

text \<open>\<^verbatim>\<open>process.env.X || d\<close>: a variable that is not set or empty gives \<open>d\<close>.\<close>

fun orElse :: "string option \<Rightarrow> string \<Rightarrow> string" where
  "orElse None d = d"
| "orElse (Some s) d = (if s = [] then d else s)"

fun isSet :: "string option \<Rightarrow> bool" where
  "isSet None = False"
| "isSet (Some s) = (s \<noteq> [])"

text \<open>\<^verbatim>\<open>j.field || '(not found)'\<close> on a parsed value that is not null.\<close>

definition fieldOr :: "store \<Rightarrow> jsval \<Rightarrow> string \<Rightarrow> jsval" where
  "fieldOr h j field =
     (if truthy (getProp h j field) then getProp h j field else Str ''(not found)'')"

text \<open>
  Lines 11 to 20: the \<^verbatim>\<open>try\<close> and its \<^verbatim>\<open>catch\<close>. Reading the file may fail,
  parsing may fail, and reading a field of a parsed \<^verbatim>\<open>null\<close> raises after the header
  of the summary was printed.
\<close>

definition summariseFile :: "files \<Rightarrow> string \<Rightarrow> line list" where
  "summariseFile fs gac =
     (case readFileSync fs gac of
        Inl err \<Rightarrow> [CouldNotReadParse err]
      | Inr raw \<Rightarrow>
          (case jsonParse fs raw of
             Inl err \<Rightarrow> [CouldNotReadParse err]
           | Inr (h, j) \<Rightarrow>
               if nullish j then [SummaryHeader, CouldNotReadParse TypeError]
               else [SummaryHeader,
                     ProjectId (fieldOr h j ''project_id''),
                     ClientEmail (fieldOr h j ''client_email''),
                     AccountType (fieldOr h j ''type'')]))"

text \<open>The whole script: everything it prints, in order, up to its last line.\<close>

definition checkCreds :: "environment \<Rightarrow> files \<Rightarrow> line list" where
  "checkCreds env fs =
     [EnvHeader,
      CredentialsPath (orElse (GOOGLE_APPLICATION_CREDENTIALS env) ''(not set)''),
      ApiKeyPresent (isSet (GEMINI_API_KEY env)),
      SerialValue (orElse (SERIAL env) ''(not set)''),
      Blank]
     @ (case GOOGLE_APPLICATION_CREDENTIALS env of
          None \<Rightarrow> [NoCredentialsFile]
        | Some gac \<Rightarrow> if gac = [] then [NoCredentialsFile] else summariseFile fs gac)
     @ [Blank, Help 1, Help 2, Help 3, Help 4]"

section \<open>Concrete responses and collaborators\<close>

text \<open>A store given by the list of its objects, object \<open>a\<close> at position \<open>a\<close>.\<close>

definition storeOf :: "jsobj list \<Rightarrow> store" where
  "storeOf objs a = (if a < length objs then objs ! a else Object [])"

text \<open>
  A response of the expected shape, \<open>Ref 0\<close>: one candidate whose content has a text part
  and an image part (object 6).
\<close>

definition expectedResponse :: store where
  "expectedResponse = storeOf
     [Object [(''candidates'', Ref 1)],
      Array [Ref 2],
      Object [(''content'', Ref 3)],
      Object [(''parts'', Ref 4)],
      Array [Ref 5, Ref 6],
      Object [(''text'', Str ''Here is the image.'')],
      Object [(''inlineData'', Ref 7)],
      Object [(''mimeType'', Str ''image/png''), (''data'', Str ''iVBORw0KGgo='')]]"

text \<open>A response of another shape, \<open>Ref 0\<close>: no candidates, the image part (object 2) elsewhere.\<close>

definition driftedResponse :: store where
  "driftedResponse = storeOf
     [Object [(''text'', Str ''done''), (''output'', Ref 1)],
      Array [Null, Ref 2],
      Object [(''inlineData'', Ref 3)],
      Object [(''mimeType'', Str ''image/jpeg''), (''data'', Str ''AAAA'')]]"

text \<open>
  A chain of nine wrapper objects, \<open>Ref 0\<close> to \<open>Ref 8\<close>, each holding the next; object 9,
  at depth 9, is the image part.
\<close>

definition deepResponse :: store where
  "deepResponse a =
     (if a < 9 then Object [(''next'', Ref (a + 1))]
      else if a = 9 then Object [(''inlineData'', Ref 10)]
      else Object [(''mimeType'', Str ''image/png'')])"

text \<open>A cyclic store: every object holds itself.\<close>

definition selfResponse :: store where
  "selfResponse a = Object [(''self'', Ref a)]"


text \<open>
  Collaborators that all succeed on the expected response, and their variants: one whose
  conversion is rejected; one that answers with the response without an image; one whose
  first generation call never settles; one whose first generation call is rejected with
  \<^verbatim>\<open>null\<close>; one whose conversion is rejected with \<^verbatim>\<open>null\<close>; and one
  whose first generation call is rejected with an error, whose
  second entry gets the response of the other shape, and whose conversion of that
  response's bytes is rejected.
\<close>

definition goodWorld :: world where
  "goodWorld =
     \<lparr>generateContent = (\<lambda>i p. Resolved (expectedResponse, Ref 0)),
      bufferFrom = (\<lambda>h v. case v of Str s \<Rightarrow> Inr s | _ \<Rightarrow> Inl TypeError),
      stringify = (\<lambda>h v. None),
      importSharp = Resolved (),
      toJpeg = (\<lambda>b. Converts (Resolved b)),
      writeFileSync = (\<lambda>f b. None),
      dateNow = (\<lambda>i. 1700000000000),
      ENFORCED_CONSTRAINTS = ''Sin bordes ni marcos.''\<rparr>"



definition stalledWorld :: world where
  "stalledWorld =
     goodWorld\<lparr>generateContent :=
       (\<lambda>i p. if i = 0 then Pending else Resolved (expectedResponse, Ref 0))\<rparr>"

definition nullRejectingWorld :: world where
  "nullRejectingWorld =
     goodWorld\<lparr>generateContent :=
       (\<lambda>i p. if i = 0 then Rejected ThrownNull else Resolved (expectedResponse, Ref 0))\<rparr>"

definition nullConvertingWorld :: world where
  "nullConvertingWorld = goodWorld\<lparr>toJpeg := (\<lambda>b. Converts (Rejected ThrownNull))\<rparr>"

definition mixedWorld :: world where
  "mixedWorld =
     goodWorld\<lparr>generateContent :=
       (\<lambda>i p. if i = 0 then Rejected (Thrown (Failure ''quota exceeded''))
              else if i = 1 then Resolved (driftedResponse, Ref 0)
              else Resolved (expectedResponse, Ref 0)),
       toJpeg :=
       (\<lambda>b. if b = ''AAAA'' then Converts (Rejected (Thrown (Failure ''unsupported image format'')))
            else Converts (Resolved b))\<rparr>"

section \<open>The image part extractor: lemmas\<close>


lemma hasImageData_primitive [simp]:
  "\<not> hasImageData h Undefined" "\<not> hasImageData h Null" "\<not> hasImageData h (Bool b)"
  "\<not> hasImageData h (Num x)" "\<not> hasImageData h (Str s)"
  by (simp_all add: hasImageData_def)

lemma hasImageData_Array: "h a = Array items \<Longrightarrow> \<not> hasImageData h (Ref a)"
  by (simp add: hasImageData_def)

lemma getProp_defined: "getProp h v key \<noteq> Undefined \<Longrightarrow> \<exists>a. v = Ref a"
  by (cases v) simp_all

lemma find_append_first:
  "find P (xs @ ys) = (case find P xs of Some x \<Rightarrow> Some x | None \<Rightarrow> find P ys)"
  by (induction xs) auto

lemma firstResult_find:
  "(\<And>x. x \<in> set xs \<Longrightarrow> map_option Ref (f x) = find P (g x)) \<Longrightarrow>
   map_option Ref (firstResult f xs) = find P (concat (map g xs))"
proof (induction xs)
  case Nil
  then show ?case by simp
next
  case (Cons x xs)
  have hd: "find P (g x) = map_option Ref (f x)" using Cons.prems by simp
  have tl: "map_option Ref (firstResult f xs) = find P (concat (map g xs))"
    using Cons by simp
  show ?case
  proof (cases "f x")
    case None
    with hd tl show ?thesis by (simp add: find_append_first)
  next
    case (Some r)
    with hd show ?thesis by (simp add: find_append_first)
  qed
qed

lemma findImagePart_traversal:
  "map_option Ref (findImagePart h node depth) = find (hasImageData h) (traversal h node depth)"
proof (induction h node depth rule: findImagePart.induct)
  case (1 h node depth)
  show ?case
  proof (cases "depth > 8")
    case True
    then show ?thesis by (simp add: findImagePart.simps[of h node depth] traversal.simps[of h node depth])
  next
    case deep: False
    show ?thesis
    proof (cases node)
      case (Ref a)
      show ?thesis
      proof (cases "h a")
        case (Array items)
        have "map_option Ref (firstResult (\<lambda>item. findImagePart h item (depth + 1)) items)
            = find (hasImageData h) (concat (map (\<lambda>c. traversal h c (depth + 1)) items))"
          by (rule firstResult_find) (use 1 deep Ref Array in auto)
        with deep Ref Array show ?thesis
          by (subst findImagePart.simps, subst traversal.simps) (simp add: children_def hasImageData_Array)
      next
        case (Object kvs)
        show ?thesis
        proof (cases "hasImageData h node")
          case True
          with deep Ref Object show ?thesis by (subst findImagePart.simps, subst traversal.simps) simp
        next
          case False
          have "map_option Ref (firstResult (\<lambda>key. findImagePart h (getProp h node key) (depth + 1)) (map fst kvs))
            = find (hasImageData h) (concat (map (\<lambda>key. traversal h (getProp h node key) (depth + 1)) (map fst kvs)))"
            by (rule firstResult_find) (use 1 deep Ref Object False in auto)
          with deep Ref Object False show ?thesis
            by (subst findImagePart.simps, subst traversal.simps) (simp add: children_def comp_def)
        qed
      qed
    qed (use deep in \<open>simp_all add: children_def findImagePart.simps[of h _ depth] traversal.simps[of h _ depth]\<close>)
  qed
qed

lemma partIsImage_hasImageData:
  assumes "partIsImage h part = Inr b"
  shows "b = hasImageData h part"
proof (cases "getProp h part ''inlineData''")
  case (Ref i)
  with assms show ?thesis
    by (auto simp: partIsImage_def hasImageData_def nullish_def Let_def split: if_splits jsval.splits)
qed (use assms in \<open>auto simp: partIsImage_def hasImageData_def nullish_def Let_def split: if_splits\<close>)

lemma partIsImage_error: "partIsImage h part = Inl e \<Longrightarrow> e = TypeError"
  by (auto simp: partIsImage_def Let_def split: if_splits jsval.splits)

lemma findPart_find:
  "\<forall>part \<in> set items. partIsImage h part \<noteq> Inl TypeError \<Longrightarrow>
   findPart h items = Inr (case find (hasImageData h) items of Some part \<Rightarrow> part | None \<Rightarrow> Undefined)"
proof (induction items)
  case Nil
  then show ?case by simp
next
  case (Cons part rest)
  then obtain b where b: "partIsImage h part = Inr b"
    by (cases "partIsImage h part") (auto dest: partIsImage_error)
  then have "b = hasImageData h part" by (rule partIsImage_hasImageData)
  with b Cons show ?case by simp
qed

lemma findPart_truthy:
  "findPart h items = Inr p \<Longrightarrow> truthy p \<Longrightarrow> hasImageData h p \<and> p \<in> set items"
proof (induction items)
  case Nil
  then show ?case by simp
next
  case (Cons part rest)
  show ?case
  proof (cases "partIsImage h part")
    case (Inl e)
    with Cons.prems show ?thesis by simp
  next
    case (Inr b)
    then have "b = hasImageData h part" by (rule partIsImage_hasImageData)
    with Inr Cons show ?thesis by (cases b) auto
  qed
qed

lemma directPath_truthy:
  assumes "directPath h response = Inr p" "truthy p"
  shows "hasImageData h p"
proof -
  from assms obtain items where "findPart h items = Inr p"
    by (auto simp: directPath_def Let_def split: if_splits jsval.splits jsobj.splits)
  with assms(2) show ?thesis by (simp add: findPart_truthy)
qed

lemma directPath_expected:
  assumes "getProp h response ''candidates'' = Ref c" "h c = Array (candidate # cs)"
    "\<not> nullish candidate" "\<not> nullish (getProp h candidate ''content'')"
    "getProp h (getProp h candidate ''content'') ''parts'' = Ref ps" "h ps = Array items"
    "\<forall>part \<in> set items. partIsImage h part \<noteq> Inl TypeError"
  shows "directPath h response =
    Inr (case find (hasImageData h) items of Some part \<Rightarrow> part | None \<Rightarrow> Undefined)"
proof -
  from assms(1) have "\<not> nullish response"
    by (auto simp: nullish_def)
  with assms show ?thesis
    by (simp add: directPath_def nullish_def findPart_find)
qed

lemma traversal_nodesAt:
  "v' \<in> set (traversal h v d) \<longleftrightarrow> (\<exists>n. d + n \<le> 8 \<and> v' \<in> set (nodesAt h v n))"
proof (induction h v d rule: traversal.induct)
  case (1 h node depth)
  show ?case
  proof (cases "depth > 8")
    case True
    then show ?thesis by (subst traversal.simps) simp
  next
    case False
    have "v' \<in> set (traversal h node depth) \<longleftrightarrow>
          v' = node \<or> (\<exists>c \<in> set (children h node). v' \<in> set (traversal h c (depth + 1)))"
      using False by (subst traversal.simps) auto
    also have "\<dots> \<longleftrightarrow> v' = node \<or>
          (\<exists>c \<in> set (children h node). \<exists>n. depth + 1 + n \<le> 8 \<and> v' \<in> set (nodesAt h c n))"
      using 1 False by auto
    also have "\<dots> \<longleftrightarrow> (\<exists>n. depth + n \<le> 8 \<and> v' \<in> set (nodesAt h node n))"
    proof
      assume "v' = node \<or>
          (\<exists>c \<in> set (children h node). \<exists>n. depth + 1 + n \<le> 8 \<and> v' \<in> set (nodesAt h c n))"
      then show "\<exists>n. depth + n \<le> 8 \<and> v' \<in> set (nodesAt h node n)"
      proof
        assume "v' = node"
        with False have "depth + 0 \<le> 8 \<and> v' \<in> set (nodesAt h node 0)" by simp
        then show ?thesis by blast
      next
        assume "\<exists>c \<in> set (children h node). \<exists>n. depth + 1 + n \<le> 8 \<and> v' \<in> set (nodesAt h c n)"
        then obtain c n where "c \<in> set (children h node)" "depth + 1 + n \<le> 8" "v' \<in> set (nodesAt h c n)"
          by blast
        then have "depth + Suc n \<le> 8 \<and> v' \<in> set (nodesAt h node (Suc n))" by auto
        then show ?thesis by blast
      qed
    next
      assume "\<exists>n. depth + n \<le> 8 \<and> v' \<in> set (nodesAt h node n)"
      then obtain n where n: "depth + n \<le> 8" "v' \<in> set (nodesAt h node n)" by blast
      show "v' = node \<or>
          (\<exists>c \<in> set (children h node). \<exists>n. depth + 1 + n \<le> 8 \<and> v' \<in> set (nodesAt h c n))"
      proof (cases n)
        case 0
        with n show ?thesis by simp
      next
        case (Suc m)
        with n show ?thesis by auto
      qed
    qed
    finally show ?thesis .
  qed
qed

lemma findImagePart_Some_nested:
  assumes "findImagePart h r 0 = Some a"
  shows "hasImageData h (Ref a) \<and> (\<exists>n\<le>8. Ref a \<in> set (nodesAt h r n))"
proof -
  have "find (hasImageData h) (traversal h r 0) = Some (Ref a)"
    using assms findImagePart_traversal[of h r 0] by simp
  then have "hasImageData h (Ref a)" "Ref a \<in> set (traversal h r 0)"
    by (auto simp: find_Some_iff)
  then show ?thesis by (auto simp: traversal_nodesAt)
qed

lemma findImagePart_None_nested:
  "findImagePart h r 0 = None \<longleftrightarrow> (\<forall>n\<le>8. \<forall>v \<in> set (nodesAt h r n). \<not> hasImageData h v)"
proof -
  have "findImagePart h r 0 = None \<longleftrightarrow> find (hasImageData h) (traversal h r 0) = None"
    using findImagePart_traversal[of h r 0] by auto
  also have "\<dots> \<longleftrightarrow> (\<forall>v \<in> set (traversal h r 0). \<not> hasImageData h v)"
    by (auto simp: find_None_iff)
  also have "\<dots> \<longleftrightarrow> (\<forall>n\<le>8. \<forall>v \<in> set (nodesAt h r n). \<not> hasImageData h v)"
    by (auto simp: traversal_nodesAt)
  finally show ?thesis .
qed

lemma findImagePart_dom_all: "findImagePart_dom (h, node, depth)"
proof (induction "9 - depth" arbitrary: node depth rule: less_induct)
  case less
  show ?case
  proof (rule accpI)
    fix y
    assume "findImagePart_rel y (h, node, depth)"
    then show "findImagePart_dom y"
      by (cases rule: findImagePart_rel.cases) (auto intro!: less)
  qed
qed

lemma findImagePart_rel_depth:
  assumes "findImagePart_rel (h', node', depth') (h, node, depth)"
  shows "h' = h \<and> depth' = depth + 1 \<and> depth \<le> 8 \<and> truthy node"
  using assms by (cases rule: findImagePart_rel.cases) auto

lemma findImagePart_calls_bounded:
  assumes "findImagePart_rel\<^sup>*\<^sup>* c (h, response, 0)"
  shows "snd (snd c) \<le> 9"
  using assms
proof (induction rule: converse_rtranclp_induct)
  case base
  then show ?case by simp
next
  case (step y z)
  obtain h1 n1 d1 where y: "y = (h1, n1, d1)" by (cases y)
  obtain h2 n2 d2 where z: "z = (h2, n2, d2)" by (cases z)
  from step(1) y z show ?case using findImagePart_rel_depth[of h1 n1 d1 h2 n2 d2] by simp
qed

subsection \<open>The responses given above\<close>

lemma le_8_cases: "(n::nat) \<le> 8 \<longleftrightarrow> n \<in> {0, 1, 2, 3, 4, 5, 6, 7, 8}"
  by (simp, arith)

lemma all_le_8: "(\<forall>n\<le>8. P (n::nat)) \<longleftrightarrow> (\<forall>n \<in> {0, 1, 2, 3, 4, 5, 6, 7, 8}. P n)"
  unfolding le_8_cases by blast

lemma nodesAt_numeral: "nodesAt h v (numeral k) = concat (map (\<lambda>c. nodesAt h c (pred_numeral k)) (children h v))"
  by (simp add: numeral_eq_Suc)

lemma expected_unique:
  "\<forall>n\<le>8. \<forall>v \<in> set (nodesAt expectedResponse (Ref 0) n). hasImageData expectedResponse v \<longrightarrow> v = Ref 6"
  by (simp add: all_le_8 nodesAt_numeral children_def expectedResponse_def storeOf_def hasImageData_def startsWith_def)

lemma deep_none:
  "\<forall>n\<le>8. \<forall>v \<in> set (nodesAt deepResponse (Ref 0) n). \<not> hasImageData deepResponse v"
  by (simp add: all_le_8 nodesAt_numeral children_def deepResponse_def hasImageData_def startsWith_def)

lemma expected_part_nested: "Ref 6 \<in> set (nodesAt expectedResponse (Ref 0) 5)"
  by (simp add: nodesAt_numeral children_def expectedResponse_def storeOf_def)

lemma expected_part_image: "hasImageData expectedResponse (Ref 6)"
  by (simp add: expectedResponse_def storeOf_def hasImageData_def startsWith_def)

lemma deep_part_nested: "Ref 9 \<in> set (nodesAt deepResponse (Ref 0) 9)"
  by (simp add: nodesAt_numeral children_def deepResponse_def)

lemma deep_part_image: "hasImageData deepResponse (Ref 9)"
  by (simp add: deepResponse_def hasImageData_def startsWith_def)


section \<open>The image part extractor: the claims\<close>

text \<open>
  C2. The extractor first takes the direct path. When the direct path gives a part, that
  part is the result, it satisfies the media-type test, and no search is made. Only when
  the direct path gives nothing, the result is that of the structural search, which is the
  first value satisfying the same test in the depth-first pre-order listing of the response
  down to depth 8 (array elements by index, object properties in the order of their keys),
  or \<^verbatim>\<open>null\<close> when there is none. On a response of the expected shape whose parts
  can all be tested, the direct path gives the first part of the first candidate's content
  whose inline data has a media type starting with \<^verbatim>\<open>image/\<close>.
\<close>

theorem extractImagePart_direct_then_search:
  "(directPath h response = Inr p \<and> truthy p \<longrightarrow>
      extractImagePart h response = Inr p \<and> hasImageData h p) \<and>
   (directPath h response = Inr p \<and> \<not> truthy p \<longrightarrow>
      extractImagePart h response =
        Inr (case find (hasImageData h) (traversal h response 0) of
               Some node \<Rightarrow> node
             | None \<Rightarrow> Null)) \<and>
   (getProp h response ''candidates'' = Ref c \<and> h c = Array (candidate # cs) \<and>
    \<not> nullish candidate \<and> \<not> nullish (getProp h candidate ''content'') \<and>
    getProp h (getProp h candidate ''content'') ''parts'' = Ref ps \<and> h ps = Array items \<and>
    (\<forall>part \<in> set items. partIsImage h part \<noteq> Inl TypeError) \<longrightarrow>
      directPath h response =
        Inr (case find (hasImageData h) items of Some part \<Rightarrow> part | None \<Rightarrow> Undefined))"
proof (intro conjI impI)
  assume a: "directPath h response = Inr p \<and> truthy p"
  then show "extractImagePart h response = Inr p" by (simp add: extractImagePart_def)
  from a show "hasImageData h p" using directPath_truthy[of h response p] by simp
next
  assume a: "directPath h response = Inr p \<and> \<not> truthy p"
  have "(case findImagePart h response 0 of Some a \<Rightarrow> Ref a | None \<Rightarrow> Null) =
        (case map_option Ref (findImagePart h response 0) of Some node \<Rightarrow> node | None \<Rightarrow> Null)"
    by (cases "findImagePart h response 0") simp_all
  with a show "extractImagePart h response =
        Inr (case find (hasImageData h) (traversal h response 0) of
               Some node \<Rightarrow> node
             | None \<Rightarrow> Null)"
    by (simp add: extractImagePart_def findImagePart_traversal)
next
  assume "getProp h response ''candidates'' = Ref c \<and> h c = Array (candidate # cs) \<and>
    \<not> nullish candidate \<and> \<not> nullish (getProp h candidate ''content'') \<and>
    getProp h (getProp h candidate ''content'') ''parts'' = Ref ps \<and> h ps = Array items \<and>
    (\<forall>part \<in> set items. partIsImage h part \<noteq> Inl TypeError)"
  then show "directPath h response =
        Inr (case find (hasImageData h) items of Some part \<Rightarrow> part | None \<Rightarrow> Undefined)"
    by (intro directPath_expected[of h response c candidate cs ps items]) simp_all
qed


text \<open>
  On the response of the expected shape the direct path gives the image part; on the
  response of another shape it gives nothing and the search, visiting the values in the
  order listed, finds the image part.
\<close>

theorem extractImagePart_direct_then_search_witness:
  "directPath expectedResponse (Ref 0) = Inr (Ref 6) \<and>
   extractImagePart expectedResponse (Ref 0) = Inr (Ref 6) \<and>
   hasImageData expectedResponse (Ref 6) \<and>
   directPath driftedResponse (Ref 0) = Inr Undefined \<and>
   traversal driftedResponse (Ref 0) 0 =
     [Ref 0, Str ''done'', Ref 1, Null, Ref 2, Ref 3, Str ''image/jpeg'', Str ''AAAA''] \<and>
   extractImagePart driftedResponse (Ref 0) = Inr (Ref 2)"
proof -
  have d1: "directPath expectedResponse (Ref 0) = Inr (Ref 6)"
    by (simp add: directPath_def partIsImage_def nullish_def expectedResponse_def storeOf_def startsWith_def)
  have d2: "directPath driftedResponse (Ref 0) = Inr Undefined"
    by (simp add: directPath_def nullish_def driftedResponse_def storeOf_def)
  have t: "traversal driftedResponse (Ref 0) 0 =
     [Ref 0, Str ''done'', Ref 1, Null, Ref 2, Ref 3, Str ''image/jpeg'', Str ''AAAA'']"
    by (simp add: traversal.simps children_def driftedResponse_def storeOf_def)
  have f: "find (hasImageData driftedResponse)
      [Ref 0, Str ''done'', Ref 1, Null, Ref 2, Ref 3, Str ''image/jpeg'', Str ''AAAA''] = Some (Ref 2)"
    by (simp add: hasImageData_def driftedResponse_def storeOf_def startsWith_def)
  from d1 d2 t f
    extractImagePart_direct_then_search[of expectedResponse "Ref 0" "Ref 6"]
    extractImagePart_direct_then_search[of driftedResponse "Ref 0" Undefined]
  show ?thesis by simp
qed

text \<open>
  C3. When an image part nested at depth 5 below the response (the response being at depth
  0) is the only value down to depth 8 satisfying the media-type test, the structural
  search returns it. When an image part is nested at depth 9 and no value down to depth 8
  satisfies the test, the search returns no result.
\<close>


theorem findImagePart_depth_bound:
  "(part \<in> set (nodesAt h response 5) \<and> part = Ref a \<and> hasImageData h part \<and>
      (\<forall>n\<le>8. \<forall>v \<in> set (nodesAt h response n). hasImageData h v \<longrightarrow> v = part)
      \<longrightarrow> findImagePart h response 0 = Some a) \<and>
   (part \<in> set (nodesAt h response 9) \<and> hasImageData h part \<and>
      (\<forall>n\<le>8. \<forall>v \<in> set (nodesAt h response n). \<not> hasImageData h v)
      \<longrightarrow> findImagePart h response 0 = None)"
proof (intro conjI impI)
  assume a: "part \<in> set (nodesAt h response 5) \<and> part = Ref a \<and> hasImageData h part \<and>
      (\<forall>n\<le>8. \<forall>v \<in> set (nodesAt h response n). hasImageData h v \<longrightarrow> v = part)"
  moreover have "(5::nat) \<le> 8" by simp
  ultimately have "\<not> (\<forall>n\<le>8. \<forall>v \<in> set (nodesAt h response n). \<not> hasImageData h v)"
    by blast
  then obtain b where b: "findImagePart h response 0 = Some b"
    using findImagePart_None_nested[of h response] by (cases "findImagePart h response 0") auto
  from findImagePart_Some_nested[OF b] a have "Ref b = part" by blast
  with a b show "findImagePart h response 0 = Some a" by simp
next
  assume "part \<in> set (nodesAt h response 9) \<and> hasImageData h part \<and>
      (\<forall>n\<le>8. \<forall>v \<in> set (nodesAt h response n). \<not> hasImageData h v)"
  then show "findImagePart h response 0 = None"
    by (simp add: findImagePart_None_nested)
qed

text \<open>
  The image part of the expected response is nested at depth 5 and found; the one of the
  chain of nine wrappers is nested at depth 9 and not found.
\<close>

theorem findImagePart_depth_bound_witness:
  "Ref 6 \<in> set (nodesAt expectedResponse (Ref 0) 5) \<and>
   hasImageData expectedResponse (Ref 6) \<and>
   findImagePart expectedResponse (Ref 0) 0 = Some 6 \<and>
   Ref 9 \<in> set (nodesAt deepResponse (Ref 0) 9) \<and>
   hasImageData deepResponse (Ref 9) \<and>
   findImagePart deepResponse (Ref 0) 0 = None"
  using findImagePart_depth_bound[of "Ref 6" expectedResponse "Ref 0" 6]
    findImagePart_depth_bound[of "Ref 9" deepResponse "Ref 0" 0]
    expected_unique deep_none expected_part_nested expected_part_image
    deep_part_nested deep_part_image
  by blast


text \<open>
  C10. The structural search terminates on every store, value and depth, cyclic stores
  included: every argument triple is in the accessible part of the call relation that the
  function package derives from the definition (\<open>findImagePart_rel callee caller\<close>).
  Every recursive call keeps the store and passes the depth plus one, and is made only by a
  call whose node is truthy and whose depth is at most 8; a call with a falsy node or a
  depth above 8 returns \<^verbatim>\<open>null\<close> and makes no call. So no call reached from a search
  started at depth 0 has a depth above 9.
\<close>

theorem findImagePart_terminates:
  "findImagePart_dom (h, node, depth) \<and>
   (findImagePart_rel (h', node', depth') (h, node, depth) \<longrightarrow>
      h' = h \<and> depth' = depth + 1 \<and> depth \<le> 8 \<and> truthy node) \<and>
   (\<not> truthy node \<or> depth > 8 \<longrightarrow>
      findImagePart h node depth = None \<and> (\<forall>c. \<not> findImagePart_rel c (h, node, depth))) \<and>
   (findImagePart_rel\<^sup>*\<^sup>* (h', node', depth') (h, response, 0) \<longrightarrow> depth' \<le> 9)"
proof (intro conjI impI allI)
  show "findImagePart_dom (h, node, depth)" by (rule findImagePart_dom_all)
next
  assume "findImagePart_rel (h', node', depth') (h, node, depth)"
  then have r: "h' = h \<and> depth' = depth + 1 \<and> depth \<le> 8 \<and> truthy node"
    by (rule findImagePart_rel_depth)
  from r show "h' = h" by simp
  from r show "depth' = depth + 1" by simp
  from r show "depth \<le> 8" by simp
  from r show "truthy node" by simp
next
  assume "\<not> truthy node \<or> depth > 8"
  then show "findImagePart h node depth = None"
    by (subst findImagePart.simps) auto
next
  fix c
  assume stop: "\<not> truthy node \<or> depth > 8"
  show "\<not> findImagePart_rel c (h, node, depth)"
  proof
    assume "findImagePart_rel c (h, node, depth)"
    then have "depth \<le> 8 \<and> truthy node"
      using findImagePart_rel_depth[of "fst c" "fst (snd c)" "snd (snd c)" h node depth] by simp
    with stop show False by auto
  qed
next
  assume "findImagePart_rel\<^sup>*\<^sup>* (h', node', depth') (h, response, 0)"
  then show "depth' \<le> 9" using findImagePart_calls_bounded by fastforce
qed


text \<open>
  In the cyclic store, the object that holds itself is searched again one level deeper;
  the search started on it at depth 0 returns \<^verbatim>\<open>null\<close>, and so does a call at depth 9.
\<close>

theorem findImagePart_terminates_witness:
  "findImagePart_dom (selfResponse, Ref 0, 0) \<and>
   findImagePart_rel (selfResponse, Ref 0, 0 + 1) (selfResponse, Ref 0, 0) \<and>
   truthy (Ref 0) \<and>
   findImagePart selfResponse (Ref 0) 9 = None \<and>
   findImagePart selfResponse (Ref 0) 0 = None"
proof -
  have call: "findImagePart_rel (selfResponse, getProp selfResponse (Ref 0) ''self'', 0 + 1) (selfResponse, Ref 0, 0)"
    by (rule findImagePart_rel.intros(2)[where ?x6.0 = 0 and ?x2.0 = "[(''self'', Ref 0)]"])
      (simp_all add: selfResponse_def hasImageData_def)
  then have call': "findImagePart_rel (selfResponse, Ref 0, 0 + 1) (selfResponse, Ref 0, 0)"
    by (simp add: selfResponse_def)
  have whole: "findImagePart selfResponse (Ref 0) 0 = None"
    by (simp add: findImagePart.simps selfResponse_def hasImageData_def)
  have deep: "(9::nat) > 8" by simp
  from call' whole deep
    findImagePart_terminates[of selfResponse "Ref 0" 0 selfResponse "Ref 0" "0 + 1" "Ref 0"]
    findImagePart_terminates[of selfResponse "Ref 0" 9 selfResponse "Ref 0" 0 "Ref 0"]
  show ?thesis by blast
qed

section \<open>File names: lemmas\<close>

lemma endsWith_rev: "endsWith s p = prefix (rev p) (rev s)"
  by (simp add: endsWith_def suffix_to_prefix)

lemma toLowerCase_append: "toLowerCase (a @ b) = toLowerCase a @ toLowerCase b"
  by (simp add: toLowerCase_def)

lemma toLowerCase_jpg: "toLowerCase ''.jpg'' = ''.jpg''"
  by (simp add: toLowerCase_def toLowerChar_def)

lemma ensureJpg_ends: "endsWith (toLowerCase (ensureJpg s)) ''.jpg''"
  by (simp add: ensureJpg_def endsWith_def toLowerCase_append toLowerCase_jpg suffix_def)

lemma endsWith_lower_prepend:
  "endsWith (toLowerCase f) p \<Longrightarrow> endsWith (toLowerCase (a @ f)) p"
  by (simp add: endsWith_def toLowerCase_append suffix_appendI)

lemma stripExtension_no_dot: "CHR ''.'' \<notin> set s \<Longrightarrow> stripExtension s = s"
  by (induction s) auto

lemma stripExtension_last:
  "ext \<noteq> [] \<Longrightarrow> CHR ''.'' \<notin> set ext \<Longrightarrow> stripExtension (stem @ CHR ''.'' # ext) = stem"
  by (induction stem) auto

lemma showNat_step: "10 \<le> n \<Longrightarrow> showNat n = showNat (n div 10) @ [''0123456789'' ! (n mod 10)]"
  by (subst showNat.simps) simp

lemma showNat_digit: "n < 10 \<Longrightarrow> showNat n = [''0123456789'' ! n]"
  by (subst showNat.simps) simp

lemma resolveFileNameSerial_empty: "resolveFileNameSerial [] requested i now = resolveFileName requested i now"
  by (simp add: resolveFileNameSerial_def resolveFileName_def split: option.splits list.splits)

lemma resolveFileNameSerial_template:
  "resolveFileNameSerial serial (Some (c # cs)) i now =
     (if serial \<noteq> [] \<and> \<not> startsWith (resolveFileName (Some (c # cs)) i now) (serial @ ''_'')
      then serial @ ''_'' @ resolveFileName (Some (c # cs)) i now
      else resolveFileName (Some (c # cs)) i now)"
  by (simp add: resolveFileNameSerial_def resolveFileName_def Let_def)

section \<open>File names: the claims\<close>

text \<open>
  C5 (as amended). The extension rule of lines 137 to 140 yields a name that ends in
  \<^verbatim>\<open>.jpg\<close> once it is lower-cased: the test ignores the case of the letters, so a
  name that already ends in the extension in any case is kept as it is. A name that does
  not end in it loses its last extension (a last dot followed by one or more characters
  other than a dot, when there is one) and gets \<^verbatim>\<open>.jpg\<close> appended. So every
  requested template resolves to a name ending in \<^verbatim>\<open>.jpg\<close> up to the case of the
  letters, with and without a run identifier. That the extension occurs once only is not
  part of the amended claim.
\<close>

theorem ensureJpg_extension:
  "endsWith (toLowerCase (ensureJpg fileName)) ''.jpg'' \<and>
   (\<not> endsWith (toLowerCase fileName) ''.jpg'' \<longrightarrow>
      ensureJpg fileName = stripExtension fileName @ ''.jpg'') \<and>
   (endsWith (toLowerCase fileName) ''.jpg'' \<longrightarrow> ensureJpg fileName = fileName) \<and>
   (ext \<noteq> [] \<and> CHR ''.'' \<notin> set ext \<longrightarrow> stripExtension (stem @ CHR ''.'' # ext) = stem) \<and>
   (CHR ''.'' \<notin> set fileName \<longrightarrow> stripExtension fileName = fileName) \<and>
   (requested = Some (c # cs) \<longrightarrow>
      endsWith (toLowerCase (resolveFileName requested i now)) ''.jpg'' \<and>
      endsWith (toLowerCase (resolveFileNameSerial serial requested i now)) ''.jpg'')"
proof (intro conjI impI)
  show "endsWith (toLowerCase (ensureJpg fileName)) ''.jpg''" by (rule ensureJpg_ends)
next
  assume "\<not> endsWith (toLowerCase fileName) ''.jpg''"
  then show "ensureJpg fileName = stripExtension fileName @ ''.jpg''" by (simp add: ensureJpg_def)
next
  assume "endsWith (toLowerCase fileName) ''.jpg''"
  then show "ensureJpg fileName = fileName" by (simp add: ensureJpg_def)
next
  assume "ext \<noteq> [] \<and> CHR ''.'' \<notin> set ext"
  then show "stripExtension (stem @ CHR ''.'' # ext) = stem" by (simp add: stripExtension_last)
next
  assume "CHR ''.'' \<notin> set fileName"
  then show "stripExtension fileName = fileName" by (rule stripExtension_no_dot)
next
  assume r: "requested = Some (c # cs)"
  then show plain: "endsWith (toLowerCase (resolveFileName requested i now)) ''.jpg''"
    by (simp add: resolveFileName_def ensureJpg_ends)
  from plain have "endsWith (toLowerCase ((serial @ ''_'') @ resolveFileName requested i now)) ''.jpg''"
    by (rule endsWith_lower_prepend)
  with r plain show "endsWith (toLowerCase (resolveFileNameSerial serial requested i now)) ''.jpg''"
    by (simp add: resolveFileNameSerial_template)
qed

text \<open>The template \<^verbatim>\<open>ruler.png\<close> loses \<^verbatim>\<open>.png\<close> and gets \<^verbatim>\<open>.jpg\<close>.\<close>

theorem ensureJpg_extension_witness:
  "\<not> endsWith (toLowerCase ''ruler.png'') ''.jpg'' \<and>
   stripExtension ''ruler.png'' = ''ruler'' \<and>
   ensureJpg ''ruler.png'' = ''ruler.jpg'' \<and>
   endsWith (toLowerCase (resolveFileName (Some ''ruler.png'') 0 1700000000000)) ''.jpg''"
proof -
  note T = ensureJpg_extension[of "''ruler.png''" "''png''" "''ruler''" "Some ''ruler.png''" "CHR ''r''" "''uler.png''" 0 1700000000000 "[]"]
  have a: "\<not> endsWith (toLowerCase ''ruler.png'') ''.jpg''"
    by (simp add: endsWith_rev toLowerCase_def toLowerChar_def)
  have b: "''png'' \<noteq> [] \<and> CHR ''.'' \<notin> set ''png''" by simp
  from T b have "stripExtension (''ruler'' @ CHR ''.'' # ''png'') = ''ruler''" by blast
  then have s: "stripExtension ''ruler.png'' = ''ruler''" by simp
  from T a have "ensureJpg ''ruler.png'' = stripExtension ''ruler.png'' @ ''.jpg''" by blast
  with s have e: "ensureJpg ''ruler.png'' = ''ruler.jpg''" by simp
  have "Some ''ruler.png'' = Some (CHR ''r'' # ''uler.png'')" by simp
  with T have r: "endsWith (toLowerCase (resolveFileName (Some ''ruler.png'') 0 1700000000000)) ''.jpg''"
    by blast
  from a s e r show ?thesis by blast
qed

text \<open>
  The claim as stated fails: \<^verbatim>\<open>photo.JPG\<close> is kept, and does not end in
  \<^verbatim>\<open>.jpg\<close>; \<^verbatim>\<open>a.jpg.png\<close> becomes \<^verbatim>\<open>a.jpg.jpg\<close>, which ends in the
  extension twice.
\<close>

theorem ensureJpg_extension_counterexample:
  "resolveFileName (Some ''photo.JPG'') 0 1700000000000 = ''photo.JPG'' \<and>
   \<not> endsWith ''photo.JPG'' ''.jpg'' \<and>
   resolveFileName (Some ''a.jpg.png'') 0 1700000000000 = ''a.jpg.jpg''"
  by (simp add: resolveFileName_def ensureJpg_def endsWith_rev toLowerCase_def toLowerChar_def)

text \<open>
  C6. The extension rule is idempotent: applied to its own result it changes nothing.
\<close>

theorem ensureJpg_idempotent: "ensureJpg (ensureJpg fileName) = ensureJpg fileName"
  using ensureJpg_ends[of fileName] by (simp add: ensureJpg_def[of "ensureJpg fileName"])

text \<open>Applied once or twice, the rule turns \<^verbatim>\<open>ruler.png\<close> into \<^verbatim>\<open>ruler.jpg\<close>.\<close>

theorem ensureJpg_idempotent_witness:
  "ensureJpg ''ruler.png'' = ''ruler.jpg'' \<and> ensureJpg (ensureJpg ''ruler.png'') = ''ruler.jpg''"
proof -
  have "ensureJpg ''ruler.png'' = ''ruler.jpg''"
    by (simp add: ensureJpg_def endsWith_rev toLowerCase_def toLowerChar_def)
  with ensureJpg_idempotent[of "''ruler.png''"] show ?thesis by simp
qed

text \<open>
  C7. In the variant that reads a run identifier, a configured (non-empty) identifier
  followed by an underscore is put before the name derived from the template (the name
  that generate.js, which reads no run identifier, gives to the same template), unless that
  name already starts with this prefix; the result always starts with the prefix. The
  template \<^verbatim>\<open>ruler.png\<close> under the identifier \<^verbatim>\<open>run1\<close> resolves to
  \<^verbatim>\<open>run1_ruler.jpg\<close>.
\<close>

theorem resolveFileNameSerial_prefix:
  "(serial \<noteq> [] \<and> requested = Some (c # cs) \<longrightarrow>
      resolveFileNameSerial serial requested i now =
        (if startsWith (resolveFileName requested i now) (serial @ ''_'')
         then resolveFileName requested i now
         else serial @ ''_'' @ resolveFileName requested i now) \<and>
      startsWith (resolveFileNameSerial serial requested i now) (serial @ ''_'')) \<and>
   resolveFileNameSerial ''run1'' (Some ''ruler.png'') i now = ''run1_ruler.jpg''"
proof (intro conjI impI)
  assume a: "serial \<noteq> [] \<and> requested = Some (c # cs)"
  then show eq: "resolveFileNameSerial serial requested i now =
        (if startsWith (resolveFileName requested i now) (serial @ ''_'')
         then resolveFileName requested i now
         else serial @ ''_'' @ resolveFileName requested i now)"
    by (simp add: resolveFileNameSerial_template)
  show "startsWith (resolveFileNameSerial serial requested i now) (serial @ ''_'')"
    unfolding eq by (simp add: startsWith_def)
next
  show "resolveFileNameSerial ''run1'' (Some ''ruler.png'') i now = ''run1_ruler.jpg''"
    by (simp add: resolveFileNameSerial_def ensureJpg_def endsWith_rev startsWith_def
        toLowerCase_def toLowerChar_def)
qed

text \<open>A template without the prefix gets it; one that has it keeps its name.\<close>

theorem resolveFileNameSerial_prefix_witness:
  "resolveFileName (Some ''ruler.png'') 0 1700000000000 = ''ruler.jpg'' \<and>
   resolveFileNameSerial ''run1'' (Some ''ruler.png'') 0 1700000000000 = ''run1_ruler.jpg'' \<and>
   resolveFileNameSerial ''run1'' (Some ''run1_ruler.png'') 0 1700000000000 = ''run1_ruler.jpg''"
proof -
  have a: "resolveFileName (Some ''ruler.png'') 0 1700000000000 = ''ruler.jpg''"
    by (simp add: resolveFileName_def ensureJpg_def endsWith_rev toLowerCase_def toLowerChar_def)
  have b: "resolveFileName (Some ''run1_ruler.png'') 0 1700000000000 = ''run1_ruler.jpg''"
    by (simp add: resolveFileName_def ensureJpg_def endsWith_rev toLowerCase_def toLowerChar_def)
  from a b
    resolveFileNameSerial_prefix[of "''run1''" "Some ''ruler.png''" "CHR ''r''" "''uler.png''" 0 1700000000000]
    resolveFileNameSerial_prefix[of "''run1''" "Some ''run1_ruler.png''" "CHR ''r''" "''un1_ruler.png''" 0 1700000000000]
  show ?thesis by (simp add: startsWith_def)
qed

text \<open>
  C8. Without a template (a requested name that is \<^verbatim>\<open>null\<close> or empty) the name is
  \<^verbatim>\<open>image_\<close>, the index of the entry counted from 1, an underscore, the run identifier
  with an underscore when one is configured, the time stamp and \<^verbatim>\<open>.jpg\<close>. Entry 0
  without run identifier at time 1700000000000 gets \<^verbatim>\<open>image_1_1700000000000.jpg\<close>.
\<close>

theorem resolveFileName_default:
  "(requested = None \<or> requested = Some [] \<longrightarrow>
      resolveFileNameSerial serial requested i now =
        ''image_'' @ showNat (i + 1) @ ''_'' @ (if serial \<noteq> [] then serial @ ''_'' else [])
          @ showNat now @ ''.jpg'' \<and>
      resolveFileName requested i now =
        ''image_'' @ showNat (i + 1) @ ''_'' @ showNat now @ ''.jpg'') \<and>
   resolveFileNameSerial [] None 0 1700000000000 = ''image_1_1700000000000.jpg'' \<and>
   resolveFileName None 0 1700000000000 = ''image_1_1700000000000.jpg''"
proof (intro conjI impI)
  assume a: "requested = None \<or> requested = Some []"
  then show "resolveFileNameSerial serial requested i now =
        ''image_'' @ showNat (i + 1) @ ''_'' @ (if serial \<noteq> [] then serial @ ''_'' else [])
          @ showNat now @ ''.jpg''"
    by (auto simp: resolveFileNameSerial_def)
  from a show "resolveFileName requested i now =
        ''image_'' @ showNat (i + 1) @ ''_'' @ showNat now @ ''.jpg''"
    by (auto simp: resolveFileName_def)
next
  show "resolveFileNameSerial [] None 0 1700000000000 = ''image_1_1700000000000.jpg''"
    by (simp add: resolveFileNameSerial_def showNat_step showNat_digit)
  show "resolveFileName None 0 1700000000000 = ''image_1_1700000000000.jpg''"
    by (simp add: resolveFileName_def showNat_step showNat_digit)
qed

text \<open>The example of the specification, and the third entry under a run identifier.\<close>

theorem resolveFileName_default_witness:
  "showNat (0 + 1) = ''1'' \<and> showNat 1700000000000 = ''1700000000000'' \<and>
   resolveFileNameSerial [] None 0 1700000000000 = ''image_1_1700000000000.jpg'' \<and>
   resolveFileNameSerial ''run1'' (Some []) 2 1700000000000 = ''image_3_run1_1700000000000.jpg''"
proof -
  have a: "showNat (0 + 1) = ''1''" "showNat 1700000000000 = ''1700000000000''" "showNat (2 + 1) = ''3''"
    by (simp_all add: showNat_step showNat_digit)
  from a
    resolveFileName_default[of None "[]" 0 1700000000000]
    resolveFileName_default[of "Some []" "''run1''" 2 1700000000000]
  show ?thesis by simp
qed

section \<open>The batch: lemmas\<close>



lemma filesWritten_simps [simp]:
  "filesWritten [] = 0"
  "filesWritten (ev # evs) = (if isWrite ev then 1 else 0) + filesWritten evs"
  "filesWritten (evs @ evs') = filesWritten evs + filesWritten evs'"
  by (simp_all add: filesWritten_def)

lemma diagnostics_simps [simp]:
  "diagnostics [] = 0"
  "diagnostics (ev # evs) = (if isDiagnostic ev then 1 else 0) + diagnostics evs"
  "diagnostics (evs @ evs') = diagnostics evs + diagnostics evs'"
  by (simp_all add: diagnostics_def)


lemma catchGenerate_outcome:
  assumes "catchGenerate prompt t = (logged, f)"
  shows "filter isWrite logged = [] \<and> filter isProcessing logged = [] \<and>
         filter isCall logged = [] \<and> LogFinished \<notin> set logged \<and>
         (t \<noteq> ThrownNull \<longrightarrow> f = Continue \<and> diagnostics logged = 1)"
  using assms by (cases t) (auto simp: catchGenerate_def)



lemma postProcess_caught:
  assumes "errorsAreObjects w"
  shows "snd (postProcess w i requested imgBuffer) \<noteq> Uncaught err"
proof -
  from assms have a: "importSharp w \<noteq> Rejected ThrownNull"
    "toJpeg w imgBuffer \<noteq> Raises ThrownNull"
    "toJpeg w imgBuffer \<noteq> Converts (Rejected ThrownNull)"
    by (simp_all add: errorsAreObjects_def)
  then show ?thesis
    by (auto simp: postProcess_def catchSharp_def catchConvert_def Let_def
        split: promise.splits conversion.splits option.splits thrown.splits)
qed

lemma reportNoImage_outcome:
  assumes "reportNoImage w h response prompt = (evs, err)"
  shows "filter isWrite evs = [] \<and> filter isProcessing evs = [] \<and> filter isCall evs = [] \<and>
         LogFinished \<notin> set evs \<and> (err = None \<longrightarrow> diagnostics evs = 1)"
  using assms
  by (auto simp: reportNoImage_def diagnostics_def split: sum.splits option.splits)

text \<open>The shapes a turn can take.\<close>

lemma tryBody_cases:
  obtains
    (pending) "generateContent w i (fullPrompt w e) = Pending"
      "tryBody w i e = ([GenerateContent (fullPrompt w e)], ([], Continue), Awaiting)"
      "\<not> extracted w i e"
  | (rejected) t where "generateContent w i (fullPrompt w e) = Rejected t"
      "tryBody w i e = ([GenerateContent (fullPrompt w e)], ([], Continue), Threw t)"
      "\<not> extracted w i e"
  | (unreadable) h response err where "generateContent w i (fullPrompt w e) = Resolved (h, response)"
      "tryBody w i e = ([GenerateContent (fullPrompt w e)], ([], Continue), Threw (Thrown err))"
  | (converted) h response imagePart imgBuffer where
      "generateContent w i (fullPrompt w e) = Resolved (h, response)"
      "extractImagePart h response = Inr imagePart" "extracted w i e"
      "tryBody w i e = ([GenerateContent (fullPrompt w e)],
         postProcess w i (requestedFilename e) imgBuffer, Completed)"
  | (reported) h response evs where
      "generateContent w i (fullPrompt w e) = Resolved (h, response)" "\<not> extracted w i e"
      "reportNoImage w h response (styledPrompt e) = (evs, None)"
      "tryBody w i e = (GenerateContent (fullPrompt w e) # evs, ([], Continue), Completed)"
  | (unreported) h response evs err where
      "generateContent w i (fullPrompt w e) = Resolved (h, response)" "\<not> extracted w i e"
      "reportNoImage w h response (styledPrompt e) = (evs, Some err)"
      "tryBody w i e = (GenerateContent (fullPrompt w e) # evs, ([], Continue), Threw (Thrown err))"
proof (cases "generateContent w i (fullPrompt w e)")
  case (Rejected t)
  then show ?thesis by (intro rejected[of t]) (simp_all add: tryBody_def extracted_def)
next
  case Pending
  then show ?thesis by (intro pending) (simp_all add: tryBody_def extracted_def)
next
  case (Resolved hr)
  obtain h response where hr: "hr = (h, response)" by (cases hr)
  show ?thesis
  proof (cases "extractImagePart h response")
    case (Inl err)
    with Resolved hr show ?thesis by (intro unreadable[of h response err]) (simp_all add: tryBody_def)
  next
    case part: (Inr imagePart)
    show ?thesis
    proof (cases "truthy imagePart \<and> truthy (getProp h imagePart ''inlineData'')")
      case True
      with Resolved hr part have ex: "extracted w i e" by (simp add: extracted_def)
      show ?thesis
      proof (cases "bufferFrom w h (getProp h (getProp h imagePart ''inlineData'') ''data'')")
        case (Inl err)
        with Resolved hr part True show ?thesis
          by (intro unreadable[of h response err]) (simp_all add: tryBody_def)
      next
        case (Inr imgBuffer)
        with Resolved hr part True ex show ?thesis
          by (intro converted[of h response imagePart imgBuffer]) (simp_all add: tryBody_def)
      qed
    next
      case False
      with Resolved hr part have nex: "\<not> extracted w i e" by (simp add: extracted_def)
      obtain evs err where r: "reportNoImage w h response (styledPrompt e) = (evs, err)"
        by (cases "reportNoImage w h response (styledPrompt e)")
      show ?thesis
      proof (cases err)
        case None
        with Resolved hr part r nex show ?thesis
          by (intro reported[of h response evs]) (simp_all add: tryBody_def if_not_P[OF False])
      next
        case (Some x)
        with Resolved hr part r nex show ?thesis
          by (intro unreported[of h response evs x]) (simp_all add: tryBody_def if_not_P[OF False])
      qed
    qed
  qed
qed






lemma processEntry_now:
  "filter isProcessing (fst (processEntry w n i e)) = [LogProcessing (i + 1) n (promptField e)] \<and>
   filter isCall (fst (processEntry w n i e)) = [GenerateContent (fullPrompt w e)] \<and>
   LogFinished \<notin> set (fst (processEntry w n i e))"
proof (cases rule: tryBody_cases[of w i e])
  case pending
  then show ?thesis by (simp add: processEntry_def)
next
  case (rejected t)
  then show ?thesis by (cases t) (simp_all add: processEntry_def catchGenerate_def)
next
  case (unreadable h response err)
  then show ?thesis by (simp add: processEntry_def catchGenerate_def)
next
  case (converted h response imagePart imgBuffer)
  then show ?thesis by (simp add: processEntry_def)
next
  case (reported h response evs)
  with reportNoImage_outcome[OF reported(3)] show ?thesis by (simp add: processEntry_def)
next
  case (unreported h response evs err)
  with reportNoImage_outcome[OF unreported(3)] show ?thesis
    by (simp add: processEntry_def catchGenerate_def)
qed

lemma processEntry_flow:
  assumes "generationSettles w" "errorsAreObjects w"
  shows "snd (snd (processEntry w n i e)) = Continue"
proof (cases rule: tryBody_cases[of w i e])
  case pending
  with assms(1) show ?thesis by (simp add: generationSettles_def)
next
  case (rejected t)
  with assms(2) obtain err where "t = Thrown err"
    by (cases t) (auto simp: errorsAreObjects_def)
  with rejected show ?thesis by (simp add: processEntry_def catchGenerate_def)
qed (simp_all add: processEntry_def catchGenerate_def)

lemma callbacksOf_caught:
  assumes "errorsAreObjects w"
  shows "snd (callbacksOf w n i e) \<noteq> Uncaught err"
proof (cases rule: tryBody_cases[of w i e])
  case (rejected t)
  then show ?thesis by (cases t) (simp_all add: callbacksOf_def processEntry_def catchGenerate_def)
next
  case (converted h response imagePart imgBuffer)
  with postProcess_caught[OF assms, of i "requestedFilename e" imgBuffer err] show ?thesis
    by (simp add: callbacksOf_def processEntry_def)
qed (simp_all add: callbacksOf_def processEntry_def catchGenerate_def)

lemma loop_now:
  assumes "generationSettles w" "errorsAreObjects w"
  shows "\<exists>evs. loop w n i es =
           (evs, map (\<lambda>(k, e). callbacksOf w n k e) (enumerate i es), Continue) \<and>
         filter isProcessing evs =
           map (\<lambda>(k, e). LogProcessing (k + 1) n (promptField e)) (enumerate i es) \<and>
         filter isCall evs = map (\<lambda>e. GenerateContent (fullPrompt w e)) es \<and>
         LogFinished \<notin> set evs"
proof (induction es arbitrary: i)
  case Nil
  then show ?case by simp
next
  case (Cons e es)
  obtain evs later f where p: "processEntry w n i e = (evs, later, f)"
    by (cases "processEntry w n i e")
  from processEntry_flow[OF assms, of n i e] p have f: "f = Continue" by simp
  from p have later: "later = callbacksOf w n i e" by (simp add: callbacksOf_def)
  from processEntry_now[of w n i e] p have
    a: "filter isProcessing evs = [LogProcessing (i + 1) n (promptField e)]"
       "filter isCall evs = [GenerateContent (fullPrompt w e)]" "LogFinished \<notin> set evs"
    by simp_all
  from Cons.IH[of "i + 1"] obtain rest where
    b: "loop w n (i + 1) es =
          (rest, map (\<lambda>(k, e). callbacksOf w n k e) (enumerate (Suc i) es), Continue)"
       "filter isProcessing rest =
          map (\<lambda>(k, e). LogProcessing (k + 1) n (promptField e)) (enumerate (Suc i) es)"
       "filter isCall rest = map (\<lambda>e. GenerateContent (fullPrompt w e)) es"
       "LogFinished \<notin> set rest"
    by auto
  from p f later a b show ?case by simp
qed

subsection \<open>The collaborators given above\<close>

lemma expected_extract: "extractImagePart expectedResponse (Ref 0) = Inr (Ref 6)"
  by (simp add: extractImagePart_def directPath_def partIsImage_def nullish_def
      expectedResponse_def storeOf_def startsWith_def)

lemma expected_data:
  "expectedResponse 6 = Object [(''inlineData'', Ref 7)]"
  "expectedResponse 7 = Object [(''mimeType'', Str ''image/png''), (''data'', Str ''iVBORw0KGgo='')]"
  by (simp_all add: expectedResponse_def storeOf_def)

lemma drifted_extract: "extractImagePart driftedResponse (Ref 0) = Inr (Ref 2)"
  by (simp add: extractImagePart_def directPath_def nullish_def findImagePart.simps
      driftedResponse_def storeOf_def hasImageData_def startsWith_def)

lemma drifted_data:
  "driftedResponse 2 = Object [(''inlineData'', Ref 3)]"
  "driftedResponse 3 = Object [(''mimeType'', Str ''image/jpeg''), (''data'', Str ''AAAA'')]"
  by (simp_all add: driftedResponse_def storeOf_def)




lemma third_name: "resolveFileName None 2 1700000000000 = ''image_3_1700000000000.jpg''"
  by (simp add: resolveFileName_def showNat_step showNat_digit)



lemma mixed_conditions: "generationSettles mixedWorld" "errorsAreObjects mixedWorld"
  by (simp_all add: generationSettles_def errorsAreObjects_def mixedWorld_def goodWorld_def)




lemma mixed_first:
  "processEntry mixedWorld n 0 (PromptString ''a board'') =
    ([LogProcessing 1 n None,
      GenerateContent (fullPrompt mixedWorld (PromptString ''a board'')),
      ErrorGenerate (styledPrompt (PromptString ''a board'')) (Failure ''quota exceeded'')],
     ([], Continue), Continue)"
  by (simp add: processEntry_def tryBody_def catchGenerate_def mixedWorld_def goodWorld_def)

lemma mixed_second:
  "processEntry mixedWorld n (Suc 0) (PromptObject ''a ruler'' (Some ''ruler.png'')) =
    ([LogProcessing 2 n (Some ''a ruler''),
      GenerateContent (fullPrompt mixedWorld (PromptObject ''a ruler'' (Some ''ruler.png'')))],
     ([ErrorConvert (Failure ''unsupported image format'')], Continue), Continue)"
  by (simp add: processEntry_def tryBody_def postProcess_def catchConvert_def
      mixedWorld_def goodWorld_def drifted_extract drifted_data)

lemma mixed_third:
  "processEntry mixedWorld n (Suc (Suc 0)) (PromptObject ''a desk'' None) =
    ([LogProcessing 3 n (Some ''a desk''),
      GenerateContent (fullPrompt mixedWorld (PromptObject ''a desk'' None))],
     ([WriteFile ''image_3_1700000000000.jpg'' ''iVBORw0KGgo='',
       LogSaved ''image_3_1700000000000.jpg''], Continue), Continue)"
  using third_name
  by (simp add: numeral_2_eq_2 processEntry_def tryBody_def postProcess_def Let_def
      mixedWorld_def goodWorld_def expected_extract expected_data)

text \<open>
  A generation call that is rejected with \<^verbatim>\<open>null\<close>: the handler of line 182 raises,
  nothing is logged for the entry, and the loop is left.
\<close>

lemma null_rejection_leaves_loop:
  "generateAndSaveImages nullRejectingWorld
     [PromptString ''a board'', PromptObject ''a ruler'' (Some ''ruler.png'')] =
     ([LogStart 2, LogProcessing 1 2 None,
       GenerateContent (fullPrompt nullRejectingWorld (PromptString ''a board''))],
      [([], Continue)], Uncaught TypeError)"
  by (simp add: generateAndSaveImages_def processEntry_def tryBody_def catchGenerate_def
      nullRejectingWorld_def goodWorld_def)

text \<open>
  A conversion that is rejected with \<^verbatim>\<open>null\<close>: the handler of line 153 raises,
  nothing is logged, and nothing catches the error.
\<close>

lemma null_conversion_uncaught:
  "generateAndSaveImages nullConvertingWorld [PromptObject ''a ruler'' (Some ''ruler.png'')] =
     ([LogStart 1, LogProcessing 1 1 (Some ''a ruler''),
       GenerateContent (fullPrompt nullConvertingWorld (PromptObject ''a ruler'' (Some ''ruler.png''))),
       LogFinished],
      [([], Uncaught TypeError)], Continue) \<and>
   uncaughtErrors (generateAndSaveImages nullConvertingWorld
     [PromptObject ''a ruler'' (Some ''ruler.png'')]) = [TypeError]"
  by (simp add: generateAndSaveImages_def processEntry_def tryBody_def postProcess_def
      catchConvert_def uncaughtErrors_def nullConvertingWorld_def goodWorld_def
      expected_extract expected_data)

lemma uncaught_none: "uncaught g = [] \<longleftrightarrow> (\<forall>err. g \<noteq> Uncaught err)"
  by (cases g) simp_all

lemma summariseFile_failure:
  assumes "readFileSync fs gac = Inl err \<or> (\<exists>raw. readFileSync fs gac = Inr raw \<and> jsonParse fs raw = Inl err)"
  shows "summariseFile fs gac = [CouldNotReadParse err]"
  using assms by (auto simp: summariseFile_def)

section \<open>The batch: the claims\<close>




text \<open>
  C4 (as amended). When every generation call settles and what is rejected or raised is
  an error object, then whatever else the collaborators do for any entry (the generation
  call fails, no image is extracted, post-processing fails or never ends): the loop goes
  through and takes every entry of the list in order, the processing messages and the
  generation calls being those of the entries in the order of the list; the events of the
  run end with the completion message, printed once, after the events of the loop; the
  callbacks of the run are, entry by entry, those of that entry alone; and no callback ends
  with an error that nothing catches, so that the run has no uncaught error.
\<close>

theorem batch_completes:
  "generationSettles w \<and> errorsAreObjects w \<longrightarrow>
     (\<exists>evs. generateAndSaveImages w es =
        (LogStart (length es) # evs @ [LogFinished],
         map (\<lambda>(i, e). callbacksOf w (length es) i e) (enumerate 0 es),
         Continue) \<and>
        LogFinished \<notin> set evs \<and>
        filter isProcessing evs =
          map (\<lambda>(i, e). LogProcessing (i + 1) (length es) (promptField e)) (enumerate 0 es) \<and>
        filter isCall evs = map (\<lambda>e. GenerateContent (fullPrompt w e)) es) \<and>
     (\<forall>i e err. snd (callbacksOf w (length es) i e) \<noteq> Uncaught err) \<and>
     uncaughtErrors (generateAndSaveImages w es) = []"
proof (intro impI conjI allI)
  assume a: "generationSettles w \<and> errorsAreObjects w"
  then obtain evs where
    l: "loop w (length es) 0 es =
          (evs, map (\<lambda>(k, e). callbacksOf w (length es) k e) (enumerate 0 es), Continue)"
       "filter isProcessing evs =
          map (\<lambda>(k, e). LogProcessing (k + 1) (length es) (promptField e)) (enumerate 0 es)"
       "filter isCall evs = map (\<lambda>e. GenerateContent (fullPrompt w e)) es"
       "LogFinished \<notin> set evs"
    using loop_now[of w "length es" 0 es] by blast
  then show "\<exists>evs. generateAndSaveImages w es =
        (LogStart (length es) # evs @ [LogFinished],
         map (\<lambda>(i, e). callbacksOf w (length es) i e) (enumerate 0 es),
         Continue) \<and>
        LogFinished \<notin> set evs \<and>
        filter isProcessing evs =
          map (\<lambda>(i, e). LogProcessing (i + 1) (length es) (promptField e)) (enumerate 0 es) \<and>
        filter isCall evs = map (\<lambda>e. GenerateContent (fullPrompt w e)) es"
    by (intro exI[of _ evs]) (simp add: generateAndSaveImages_def)
next
  fix i e err
  assume "generationSettles w \<and> errorsAreObjects w"
  then show "snd (callbacksOf w (length es) i e) \<noteq> Uncaught err"
    by (simp add: callbacksOf_caught)
next
  assume a: "generationSettles w \<and> errorsAreObjects w"
  then obtain evs where
    "loop w (length es) 0 es =
       (evs, map (\<lambda>(k, e). callbacksOf w (length es) k e) (enumerate 0 es), Continue)"
    using loop_now[of w "length es" 0 es] by blast
  then have "uncaughtErrors (generateAndSaveImages w es) =
      concat (map (\<lambda>(later, g). uncaught g)
        (map (\<lambda>(k, e). callbacksOf w (length es) k e) (enumerate 0 es)))"
    by (simp add: generateAndSaveImages_def uncaughtErrors_def)
  also have "\<dots> = []"
  proof -
    have "uncaught (snd (callbacksOf w (length es) k e)) = []" for k e
      using a by (simp add: uncaught_none callbacksOf_caught)
    then show ?thesis by (simp add: case_prod_unfold)
  qed
  finally show "uncaughtErrors (generateAndSaveImages w es) = []" .
qed

text \<open>
  A run of three entries: the generation call of the first is rejected, the conversion of
  the second is rejected, the third succeeds. Both errors are logged where they occur, the
  file of the third entry is written, and the completion message ends the run.
\<close>

theorem batch_completes_witness:
  "generationSettles mixedWorld \<and> errorsAreObjects mixedWorld \<and>
   generateAndSaveImages mixedWorld
     [PromptString ''a board'', PromptObject ''a ruler'' (Some ''ruler.png''),
      PromptObject ''a desk'' None] =
     ([LogStart 3,
       LogProcessing 1 3 None,
       GenerateContent (fullPrompt mixedWorld (PromptString ''a board'')),
       ErrorGenerate (styledPrompt (PromptString ''a board'')) (Failure ''quota exceeded''),
       LogProcessing 2 3 (Some ''a ruler''),
       GenerateContent (fullPrompt mixedWorld (PromptObject ''a ruler'' (Some ''ruler.png''))),
       LogProcessing 3 3 (Some ''a desk''),
       GenerateContent (fullPrompt mixedWorld (PromptObject ''a desk'' None)),
       LogFinished],
      [([], Continue),
       ([ErrorConvert (Failure ''unsupported image format'')], Continue),
       ([WriteFile ''image_3_1700000000000.jpg'' ''iVBORw0KGgo='',
         LogSaved ''image_3_1700000000000.jpg''], Continue)],
      Continue) \<and>
   snd (snd (generateAndSaveImages mixedWorld
     [PromptString ''a board'', PromptObject ''a ruler'' (Some ''ruler.png''),
      PromptObject ''a desk'' None])) = Continue \<and>
   snd (callbacksOf mixedWorld 3 1 (PromptObject ''a ruler'' (Some ''ruler.png''))) \<noteq> Uncaught TypeError"
proof -
  let ?es = "[PromptString ''a board'', PromptObject ''a ruler'' (Some ''ruler.png''),
      PromptObject ''a desk'' None]"
  have run: "generateAndSaveImages mixedWorld ?es =
     ([LogStart 3,
       LogProcessing 1 3 None,
       GenerateContent (fullPrompt mixedWorld (PromptString ''a board'')),
       ErrorGenerate (styledPrompt (PromptString ''a board'')) (Failure ''quota exceeded''),
       LogProcessing 2 3 (Some ''a ruler''),
       GenerateContent (fullPrompt mixedWorld (PromptObject ''a ruler'' (Some ''ruler.png''))),
       LogProcessing 3 3 (Some ''a desk''),
       GenerateContent (fullPrompt mixedWorld (PromptObject ''a desk'' None)),
       LogFinished],
      [([], Continue),
       ([ErrorConvert (Failure ''unsupported image format'')], Continue),
       ([WriteFile ''image_3_1700000000000.jpg'' ''iVBORw0KGgo='',
         LogSaved ''image_3_1700000000000.jpg''], Continue)],
      Continue)"
    by (simp add: generateAndSaveImages_def mixed_first mixed_second mixed_third)
  have len: "length ?es = 3" by simp
  from batch_completes[of mixedWorld ?es] mixed_conditions
  have t: "(\<exists>evs. generateAndSaveImages mixedWorld ?es =
        (LogStart (length ?es) # evs @ [LogFinished],
         map (\<lambda>(i, e). callbacksOf mixedWorld (length ?es) i e) (enumerate 0 ?es),
         Continue) \<and>
        LogFinished \<notin> set evs \<and>
        filter isProcessing evs =
          map (\<lambda>(i, e). LogProcessing (i + 1) (length ?es) (promptField e)) (enumerate 0 ?es) \<and>
        filter isCall evs = map (\<lambda>e. GenerateContent (fullPrompt mixedWorld e)) ?es) \<and>
     (\<forall>i e err. snd (callbacksOf mixedWorld (length ?es) i e) \<noteq> Uncaught err) \<and>
     uncaughtErrors (generateAndSaveImages mixedWorld ?es) = []"
    by blast
  then have c: "snd (snd (generateAndSaveImages mixedWorld ?es)) = Continue" by auto
  from t len have u: "snd (callbacksOf mixedWorld 3 1 (PromptObject ''a ruler'' (Some ''ruler.png''))) \<noteq> Uncaught TypeError"
    by metis
  from run c u mixed_conditions show ?thesis by blast
qed

text \<open>
  The claim as stated fails where it says always: the program sets no time limit on a
  call, so when the generation call of the first entry never settles the loop stays at
  line 64; the second entry is not processed and the completion message is not printed.
\<close>

theorem batch_completes_counterexample:
  "generateAndSaveImages stalledWorld
     [PromptString ''a board'', PromptObject ''a ruler'' (Some ''ruler.png'')] =
     ([LogStart 2, LogProcessing 1 2 None,
       GenerateContent (fullPrompt stalledWorld (PromptString ''a board''))],
      [([], Continue)], NeverResumes) \<and>
   LogFinished \<notin> set (fst (generateAndSaveImages stalledWorld
     [PromptString ''a board'', PromptObject ''a ruler'' (Some ''ruler.png'')])) \<and>
   filter isProcessing (fst (generateAndSaveImages stalledWorld
     [PromptString ''a board'', PromptObject ''a ruler'' (Some ''ruler.png'')])) =
     [LogProcessing 1 2 None]"
  by (simp add: generateAndSaveImages_def processEntry_def tryBody_def
      stalledWorld_def goodWorld_def)

section \<open>The credential inspector: the claim\<close>

text \<open>
  C9. The five summary lines of the environment come first in every run, whatever the
  file system and the parser do; the line for the API key depends only on whether the key
  is set. When the credentials file is set and reading it or parsing it fails, the failure
  is reported as one line, and the script goes on to its last line: the output is the
  summary lines, that one line, and the closing lines.
\<close>


theorem checkCreds_failure_reported:
  "take 5 (checkCreds env fs) =
     [EnvHeader,
      CredentialsPath (orElse (GOOGLE_APPLICATION_CREDENTIALS env) ''(not set)''),
      ApiKeyPresent (isSet (GEMINI_API_KEY env)),
      SerialValue (orElse (SERIAL env) ''(not set)''),
      Blank] \<and>
   (GOOGLE_APPLICATION_CREDENTIALS env = Some gac \<and> gac \<noteq> [] \<and>
    (readFileSync fs gac = Inl err \<or>
     (\<exists>raw. readFileSync fs gac = Inr raw \<and> jsonParse fs raw = Inl err)) \<longrightarrow>
      checkCreds env fs =
        [EnvHeader,
         CredentialsPath gac,
         ApiKeyPresent (isSet (GEMINI_API_KEY env)),
         SerialValue (orElse (SERIAL env) ''(not set)''),
         Blank,
         CouldNotReadParse err,
         Blank, Help 1, Help 2, Help 3, Help 4])"
proof (intro conjI impI)
  show "take 5 (checkCreds env fs) =
     [EnvHeader,
      CredentialsPath (orElse (GOOGLE_APPLICATION_CREDENTIALS env) ''(not set)''),
      ApiKeyPresent (isSet (GEMINI_API_KEY env)),
      SerialValue (orElse (SERIAL env) ''(not set)''),
      Blank]"
    by (simp add: checkCreds_def)
next
  assume a: "GOOGLE_APPLICATION_CREDENTIALS env = Some gac \<and> gac \<noteq> [] \<and>
    (readFileSync fs gac = Inl err \<or>
     (\<exists>raw. readFileSync fs gac = Inr raw \<and> jsonParse fs raw = Inl err))"
  then have "summariseFile fs gac = [CouldNotReadParse err]"
    by (intro summariseFile_failure) simp
  with a show "checkCreds env fs =
        [EnvHeader,
         CredentialsPath gac,
         ApiKeyPresent (isSet (GEMINI_API_KEY env)),
         SerialValue (orElse (SERIAL env) ''(not set)''),
         Blank,
         CouldNotReadParse err,
         Blank, Help 1, Help 2, Help 3, Help 4]"
    by (simp add: checkCreds_def)
qed


text \<open>A file that does not parse, and a file that cannot be read.\<close>

theorem checkCreds_failure_reported_witness:
  "checkCreds
     \<lparr>GOOGLE_APPLICATION_CREDENTIALS = Some ''/tmp/key.json'', GEMINI_API_KEY = Some ''secret'',
      SERIAL = None\<rparr>
     \<lparr>readFileSync = (\<lambda>path. Inr ''{ not json''),
      jsonParse = (\<lambda>raw. Inl (Failure ''Unexpected token n in JSON at position 2''))\<rparr> =
     [EnvHeader, CredentialsPath ''/tmp/key.json'', ApiKeyPresent True, SerialValue ''(not set)'',
      Blank,
      CouldNotReadParse (Failure ''Unexpected token n in JSON at position 2''),
      Blank, Help 1, Help 2, Help 3, Help 4] \<and>
   checkCreds
     \<lparr>GOOGLE_APPLICATION_CREDENTIALS = Some ''/tmp/missing.json'', GEMINI_API_KEY = None,
      SERIAL = Some ''run1''\<rparr>
     \<lparr>readFileSync = (\<lambda>path. Inl (Failure ''ENOENT: no such file or directory'')),
      jsonParse = (\<lambda>raw. Inr (expectedResponse, Null))\<rparr> =
     [EnvHeader, CredentialsPath ''/tmp/missing.json'', ApiKeyPresent False, SerialValue ''run1'',
      Blank,
      CouldNotReadParse (Failure ''ENOENT: no such file or directory''),
      Blank, Help 1, Help 2, Help 3, Help 4]"
  using
    checkCreds_failure_reported[of
      "\<lparr>GOOGLE_APPLICATION_CREDENTIALS = Some ''/tmp/key.json'', GEMINI_API_KEY = Some ''secret'',
        SERIAL = None\<rparr>"
      "\<lparr>readFileSync = (\<lambda>path. Inr ''{ not json''),
        jsonParse = (\<lambda>raw. Inl (Failure ''Unexpected token n in JSON at position 2''))\<rparr>"
      "''/tmp/key.json''" "Failure ''Unexpected token n in JSON at position 2''"]
    checkCreds_failure_reported[of
      "\<lparr>GOOGLE_APPLICATION_CREDENTIALS = Some ''/tmp/missing.json'', GEMINI_API_KEY = None,
        SERIAL = Some ''run1''\<rparr>"
      "\<lparr>readFileSync = (\<lambda>path. Inl (Failure ''ENOENT: no such file or directory'')),
        jsonParse = (\<lambda>raw. Inr (expectedResponse, Null))\<rparr>"
      "''/tmp/missing.json''" "Failure ''ENOENT: no such file or directory''"]
  by simp

end
